theory Spec2Isabelle
  imports Complex_Main "HOL-Library.Sublist"
begin

section \<open>Python values, strings and exceptions\<close>

text \<open>
  A Python \<open>str\<close> is a sequence of Unicode code points. Isabelle's \<open>char\<close> has eight
  bits only, and the converter handles en and em dashes and decoded UTF-8 text, so a string
  is modelled as a list of code points (natural numbers). \<open>u\<close> turns an ASCII literal into
  such a list.
\<close>

type_synonym ustr = "nat list"

definition u :: "string \<Rightarrow> ustr" where
  "u s = map of_char s"

text \<open>
  The exceptions the converter can meet, and the values a cell or an argument can hold.
  The type \<open>'f\<close> stands for Python's floats.
\<close>

datatype exn =
    UnicodeEncodeError | UnicodeDecodeError | ValueError | TypeError
  | AttributeError | KeyError | FileNotFoundError | SystemExit

datatype 'f pyval = PStr ustr | PNone | PNaN | PFloat 'f

text \<open>
  The library functions whose tables and rules are no part of the repository are
  parameters of the model: \<open>str.lower()\<close> and \<open>str.upper()\<close> (the Unicode case mappings),
  the value that \<open>float\<close> gives for a decimal literal that it accepts (the nearest binary64
  number, or infinity), and what \<open>.astype(str)\<close> makes of a cell that is not a string (a
  float, NaN or \<open>None\<close>): a text, or a missing value again, which depends on the version
  of pandas.
\<close>

record 'f pylib =
  str_lower :: "ustr \<Rightarrow> ustr"
  str_upper :: "ustr \<Rightarrow> ustr"
  float_of :: "ustr \<Rightarrow> 'f"
  astype_other :: "'f pyval \<Rightarrow> ustr option"

definition bind_exn :: "exn + 'a \<Rightarrow> ('a \<Rightarrow> exn + 'b) \<Rightarrow> exn + 'b" where
  "bind_exn m f = (case m of Inl e \<Rightarrow> Inl e | Inr v \<Rightarrow> f v)"

text \<open>\<open>try: body  except Exception: handler\<close>.\<close>

definition try_except :: "exn + 'a \<Rightarrow> exn + 'a \<Rightarrow> exn + 'a" where
  "try_except body handler = (case body of Inl e \<Rightarrow> handler | Inr v \<Rightarrow> Inr v)"

text \<open>\<open>Series.apply(f)\<close>: \<open>f\<close> on every element in order; the first exception propagates.\<close>

fun apply_series :: "('a \<Rightarrow> exn + 'b) \<Rightarrow> 'a list \<Rightarrow> exn + 'b list" where
  "apply_series f [] = Inr []"
| "apply_series f (x # xs) =
     bind_exn (f x) (\<lambda>y. bind_exn (apply_series f xs) (\<lambda>ys. Inr (y # ys)))"

subsection \<open>Character classes and \<open>str\<close> methods\<close>

text \<open>
  \<open>str.strip()\<close> without argument and the pattern \<open>\s\<close> of a \<open>str\<close> regular expression
  both use CPython's Unicode white space test.
\<close>

definition is_space :: "nat \<Rightarrow> bool" where
  "is_space c \<longleftrightarrow>
     (9 \<le> c \<and> c \<le> 13) \<or> (28 \<le> c \<and> c \<le> 32) \<or> c = 133 \<or> c = 160 \<or> c = 5760
     \<or> (8192 \<le> c \<and> c \<le> 8202) \<or> c = 8232 \<or> c = 8233 \<or> c = 8239 \<or> c = 8287
     \<or> c = 12288"

definition is_digit :: "nat \<Rightarrow> bool" where
  "is_digit c \<longleftrightarrow> 48 \<le> c \<and> c \<le> 57"

text \<open>\<open>s.strip(chars)\<close> removes leading and trailing code points that satisfy \<open>p\<close>.\<close>

definition strip_by :: "(nat \<Rightarrow> bool) \<Rightarrow> ustr \<Rightarrow> ustr" where
  "strip_by p s = rev (dropWhile p (rev (dropWhile p s)))"

definition py_strip :: "ustr \<Rightarrow> ustr" where
  "py_strip s = strip_by is_space s"

definition strip_chars :: "ustr \<Rightarrow> ustr \<Rightarrow> ustr" where
  "strip_chars chars s = strip_by (\<lambda>c. c \<in> set chars) s"

text \<open>\<open>sub in s\<close> on strings, \<open>s.startswith(p)\<close>, \<open>sep.join(parts)\<close> and \<open>s.split(sep)\<close>.\<close>

fun str_contains :: "ustr \<Rightarrow> ustr \<Rightarrow> bool" where
  "str_contains sub [] = (sub = [])"
| "str_contains sub (x # xs) = (prefix sub (x # xs) \<or> str_contains sub xs)"

definition startswith :: "ustr \<Rightarrow> ustr \<Rightarrow> bool" where
  "startswith s p = prefix p s"

fun py_join :: "ustr \<Rightarrow> ustr list \<Rightarrow> ustr" where
  "py_join sep [] = []"
| "py_join sep [p] = p"
| "py_join sep (p # q # ps) = p @ sep @ py_join sep (q # ps)"

text \<open>
  \<open>s.split(sep)\<close> for a non-empty separator: \<open>split_acc sep cur s\<close> scans \<open>s\<close> from the left
  with the current segment \<open>cur\<close>; at every occurrence of the separator the segment is closed
  and the scan goes on behind the separator.
\<close>

function split_acc :: "ustr \<Rightarrow> ustr \<Rightarrow> ustr \<Rightarrow> ustr list" where
  "split_acc sep cur s =
     (if s = [] then [cur]
      else if sep \<noteq> [] \<and> prefix sep s then cur # split_acc sep [] (drop (length sep) s)
      else split_acc sep (cur @ [hd s]) (tl s))"
  by pat_completeness auto
termination
  by (relation "measure (\<lambda>(sep, cur, s). length s)") auto

definition py_split :: "ustr \<Rightarrow> ustr \<Rightarrow> ustr list" where
  "py_split sep s = split_acc sep [] s"

section \<open>Encoding repair\<close>

text \<open>
  \<open>s.encode('latin-1')\<close>: every code point below 256 is one byte; any other code point
  raises.
\<close>

definition latin1_encode :: "ustr \<Rightarrow> exn + nat list" where
  "latin1_encode s = (if list_all (\<lambda>c. c < 256) s then Inr s else Inl UnicodeEncodeError)"

text \<open>
  \<open>bytes.decode('utf-8')\<close>, the strict decoder: shortest forms only, no surrogates, nothing
  beyond U+10FFFF; the first ill-formed sequence raises.
\<close>

definition is_cont :: "nat \<Rightarrow> bool" where
  "is_cont b \<longleftrightarrow> 128 \<le> b \<and> b \<le> 191"

definition cons_ok :: "nat \<Rightarrow> exn + ustr \<Rightarrow> exn + ustr" where
  "cons_ok c r = bind_exn r (\<lambda>cs. Inr (c # cs))"

fun utf8_decode :: "nat list \<Rightarrow> exn + ustr" where
  "utf8_decode [] = Inr []"
| "utf8_decode (b # bs) =
     (if b < 128 then cons_ok b (utf8_decode bs)
      else if 194 \<le> b \<and> b \<le> 223 then
        (case bs of
           c1 # r \<Rightarrow>
             if is_cont c1 then cons_ok ((b - 192) * 64 + (c1 - 128)) (utf8_decode r)
             else Inl UnicodeDecodeError
         | _ \<Rightarrow> Inl UnicodeDecodeError)
      else if 224 \<le> b \<and> b \<le> 239 then
        (case bs of
           c1 # c2 # r \<Rightarrow>
             if is_cont c1 \<and> is_cont c2 \<and> (b = 224 \<longrightarrow> 160 \<le> c1) \<and> (b = 237 \<longrightarrow> c1 \<le> 159)
             then cons_ok ((b - 224) * 4096 + (c1 - 128) * 64 + (c2 - 128)) (utf8_decode r)
             else Inl UnicodeDecodeError
         | _ \<Rightarrow> Inl UnicodeDecodeError)
      else if 240 \<le> b \<and> b \<le> 244 then
        (case bs of
           c1 # c2 # c3 # r \<Rightarrow>
             if is_cont c1 \<and> is_cont c2 \<and> is_cont c3
                \<and> (b = 240 \<longrightarrow> 144 \<le> c1) \<and> (b = 244 \<longrightarrow> c1 \<le> 143)
             then cons_ok ((b - 240) * 262144 + (c1 - 128) * 4096 + (c2 - 128) * 64 + (c3 - 128))
                    (utf8_decode r)
             else Inl UnicodeDecodeError
         | _ \<Rightarrow> Inl UnicodeDecodeError)
      else Inl UnicodeDecodeError)"

text \<open>The round trip \<open>s.encode('latin-1').decode('utf-8')\<close>.\<close>

definition latin1_utf8_roundtrip :: "ustr \<Rightarrow> exn + ustr" where
  "latin1_utf8_roundtrip s = bind_exn (latin1_encode s) utf8_decode"

text \<open>
  \<open>fix_mojibake_text\<close>: a value that is not a string is returned as it is; a string with
  U+00C3 or U+00C2 goes through the round trip inside \<open>try\<close>, any other string is returned
  unchanged.
\<close>

definition fix_mojibake_text :: "'f pyval \<Rightarrow> exn + 'f pyval" where
  "fix_mojibake_text v =
     (case v of
        PStr s \<Rightarrow>
          if 195 \<in> set s \<or> 194 \<in> set s
          then try_except (bind_exn (latin1_utf8_roundtrip s) (\<lambda>t. Inr (PStr t))) (Inr (PStr s))
          else Inr (PStr s)
      | _ \<Rightarrow> Inr v)"

section \<open>Regular expressions\<close>

text \<open>
  The two patterns of the converter use literals, character classes, sequencing, a
  capturing group and the greedy operators \<open>*\<close>, \<open>+\<close> and \<open>?\<close>. \<open>rmatch r (s, caps)\<close> is
  the backtracking matcher of \<open>re\<close>: the list of all ways in which \<open>r\<close> matches a prefix of
  \<open>s\<close>, each as the rest of the text and the groups captured, in the order in which the
  engine tries them (a greedy operator tries the longer alternative first). The first
  element is the match that \<open>re\<close> reports. A round of \<open>*\<close> that takes no text ends the
  repetition; a group is recorded with the text that its match has taken.
\<close>

datatype regex =
    Chr nat
  | Cls "nat \<Rightarrow> bool"
  | Cat regex regex
  | Star regex
  | Opt regex
  | Grp nat regex

type_synonym caps = "(nat \<times> ustr) list"
type_synonym mstate = "ustr \<times> caps"

abbreviation Plus :: "regex \<Rightarrow> regex" where
  "Plus r \<equiv> Cat r (Star r)"

fun lits :: "ustr \<Rightarrow> regex \<Rightarrow> regex" where
  "lits [] r = r"
| "lits (c # cs) r = Cat (Chr c) (lits cs r)"

fun rmatch :: "regex \<Rightarrow> mstate \<Rightarrow> mstate list" where
  "rmatch (Chr a) st =
     (case fst st of [] \<Rightarrow> [] | x # xs \<Rightarrow> if x = a then [(xs, snd st)] else [])"
| "rmatch (Cls p) st =
     (case fst st of [] \<Rightarrow> [] | x # xs \<Rightarrow> if p x then [(xs, snd st)] else [])"
| "rmatch (Cat r1 r2) st = concat (map (rmatch r2) (rmatch r1 st))"
| "rmatch (Star r) st =
     concat (map (\<lambda>st'. if length (fst st') < length (fst st) then rmatch (Star r) st' else [])
                 (rmatch r st)) @ [st]"
| "rmatch (Opt r) st = rmatch r st @ [st]"
| "rmatch (Grp n r) st =
     map (\<lambda>st'. (fst st', (n, take (length (fst st) - length (fst st')) (fst st)) # snd st'))
         (rmatch r st)"

text \<open>\<open>re.match\<close>: the first way to match at the start of the text, if there is one.\<close>

definition re_match :: "regex \<Rightarrow> ustr \<Rightarrow> mstate option" where
  "re_match r s = (case rmatch r (s, []) of [] \<Rightarrow> None | st # _ \<Rightarrow> Some st)"

text \<open>\<open>re.search\<close>: the match at the leftmost position that has one.\<close>

fun re_search :: "regex \<Rightarrow> ustr \<Rightarrow> mstate option" where
  "re_search r [] = re_match r []"
| "re_search r (x # xs) =
     (case re_match r (x # xs) of Some st \<Rightarrow> Some st | None \<Rightarrow> re_search r xs)"

text \<open>\<open>m.group(k)\<close>: the text of group \<open>k\<close>, \<open>None\<close> for a group that took no part.\<close>

definition group :: "caps \<Rightarrow> nat \<Rightarrow> ustr option" where
  "group m k = map_of m k"

text \<open>
  \<open>re.sub(r, repl, s)\<close> with a literal replacement: the leftmost matches, not overlapping,
  are replaced. An empty match is replaced too and the scan moves on by one code point.
\<close>

function re_sub :: "regex \<Rightarrow> ustr \<Rightarrow> ustr \<Rightarrow> ustr" where
  "re_sub r repl s =
     (case re_match r s of
        None \<Rightarrow> (case s of [] \<Rightarrow> [] | x # xs \<Rightarrow> x # re_sub r repl xs)
      | Some st \<Rightarrow>
          if length (fst st) < length s then repl @ re_sub r repl (fst st)
          else (case s of [] \<Rightarrow> repl | x # xs \<Rightarrow> repl @ x # re_sub r repl xs))"
  by pat_completeness auto
termination
  by (relation "measure (\<lambda>(r, repl, s). length s)") auto

section \<open>Extracting the point\<close>

text \<open>
  \<open>float(x)\<close> on a captured group. The groups of the pattern hold only \<open>-\<close>, digits and
  \<open>.\<close>, so the model covers the decimal literals without exponent: \<open>float_ok\<close> accepts an
  optional sign, then digits with an optional fraction, or a fraction alone. Everything
  else is a \<open>ValueError\<close>, and \<open>None\<close> a \<open>TypeError\<close>. The value of an accepted literal
  is the library's.
\<close>

definition float_ok :: "ustr \<Rightarrow> bool" where
  "float_ok s =
     (let body = (if s \<noteq> [] \<and> (hd s = 45 \<or> hd s = 43) then tl s else s);
          ip = takeWhile is_digit body;
          rest = dropWhile is_digit body;
          fp = (if rest = [] then [] else tl rest)
      in (rest = [] \<and> ip \<noteq> [])
         \<or> (rest \<noteq> [] \<and> hd rest = 46 \<and> list_all is_digit fp \<and> (ip \<noteq> [] \<or> fp \<noteq> [])))"

definition py_float :: "'f pylib \<Rightarrow> ustr option \<Rightarrow> exn + 'f" where
  "py_float L x =
     (case x of
        None \<Rightarrow> Inl TypeError
      | Some s \<Rightarrow> if float_ok s then Inr (float_of L s) else Inl ValueError)"

text \<open>
  The pattern
  \<^verbatim>\<open>POINT\s*\(\s*([\-0-9]+(?:\.[0-9]+)?)\s+([\-0-9]+(?:\.[0-9]+)?)\s*\)\<close>.
\<close>

definition minus_or_digit :: "nat \<Rightarrow> bool" where
  "minus_or_digit c \<longleftrightarrow> c = 45 \<or> is_digit c"

definition number_re :: regex where
  "number_re = Cat (Plus (Cls minus_or_digit)) (Opt (Cat (Chr 46) (Plus (Cls is_digit))))"

definition wkt_re :: regex where
  "wkt_re =
     lits (u ''POINT'')
       (Cat (Star (Cls is_space))
       (Cat (Chr 40)
       (Cat (Star (Cls is_space))
       (Cat (Grp 1 number_re)
       (Cat (Plus (Cls is_space))
       (Cat (Grp 2 number_re)
       (Cat (Star (Cls is_space))
            (Chr 41))))))))"

definition extract_lon_lat_from_wkt ::
  "'f pylib \<Rightarrow> 'f pyval \<Rightarrow> exn + ('f option \<times> 'f option)" where
  "extract_lon_lat_from_wkt L wkt_str =
     (case wkt_str of
        PStr s \<Rightarrow>
          (let s' = strip_chars (u [CHR 0x27]) (strip_chars (u [CHR 0x22]) (py_strip s))
           in case re_search wkt_re s' of
                None \<Rightarrow> Inr (None, None)
              | Some m \<Rightarrow>
                  try_except
                    (bind_exn (py_float L (group (snd m) 1)) (\<lambda>lon.
                     bind_exn (py_float L (group (snd m) 2)) (\<lambda>lat.
                     Inr (Some lat, Some lon))))
                    (Inr (None, None)))
      | _ \<Rightarrow> Inr (None, None))"

section \<open>Splitting the description\<close>

text \<open>The pattern \<^verbatim>\<open>\s*[-\<endash>\<emdash>]\s*\<close>: hyphen, en dash (U+2013) or em dash (U+2014).\<close>

definition is_dash :: "nat \<Rightarrow> bool" where
  "is_dash c \<longleftrightarrow> c = 45 \<or> c = 8211 \<or> c = 8212"

definition dash_re :: regex where
  "dash_re = Cat (Star (Cls is_space)) (Cat (Cls is_dash) (Star (Cls is_space)))"

text \<open>\<open>while len(parts) < 5: parts.append('x')\<close>.\<close>

function pad_x :: "ustr list \<Rightarrow> ustr list" where
  "pad_x parts = (if length parts < 5 then pad_x (parts @ [u ''x'']) else parts)"
  by pat_completeness auto
termination
  by (relation "measure (\<lambda>parts. 5 - length parts)") auto

definition split_standard_description :: "'f pyval \<Rightarrow> exn + ustr list" where
  "split_standard_description desc =
     (case desc of
        PStr d \<Rightarrow>
          if py_strip d = [] then Inr [u ''x'', u ''x'', u ''x'', u ''x'', u ''x'']
          else
            bind_exn (fix_mojibake_text (PStr d :: 'f pyval)) (\<lambda>desc'.
              case desc' of
                PStr d' \<Rightarrow>
                  let desc_norm = re_sub dash_re (u '' - '') (py_strip d');
                      parts = map py_strip (py_split (u '' - '') desc_norm);
                      parts = (if length parts > 5
                               then take 4 parts @ [py_join (u '' - '') (drop 4 parts)]
                               else parts)
                  in Inr (pad_x parts)
              | _ \<Rightarrow> Inl AttributeError)
      | _ \<Rightarrow> Inr [u ''x'', u ''x'', u ''x'', u ''x'', u ''x''])"

section \<open>The data frame\<close>

text \<open>
  \<open>pd.read_csv(..., dtype=str)\<close> gives a frame whose cells are strings or missing (NaN,
  here \<open>None\<close>). A frame is the list of its columns in order, each with its name and its
  values, and its index, one label for every row. A file whose rows have as many fields
  as the header has names gets the default index \<open>0, 1, ...\<close>; with one field more in the
  rows, pandas takes the first field of every row as the label. A label is the whole number
  that it is equal to, or any other label, told apart by a key. An index of several levels,
  which rows with still more fields give, is left out: what is proved below of a
  conversion that writes its output is stated for the default index. pandas keeps the column names of a file apart and
  every column as long as the index; \<open>wf_frame\<close> says so.
\<close>

type_synonym 'c cols = "(ustr \<times> 'c list) list"

datatype label = IntLabel nat | OtherLabel ustr

record dataframe =
  columns :: "ustr option cols"
  index :: "label list"

definition nrows :: "dataframe \<Rightarrow> nat" where
  "nrows df = length (index df)"

definition range_index :: "nat \<Rightarrow> label list" where
  "range_index n = map IntLabel [0..<n]"

definition wf_frame :: "dataframe \<Rightarrow> bool" where
  "wf_frame df \<longleftrightarrow>
     distinct (map fst (columns df)) \<and> list_all (\<lambda>cv. length (snd cv) = nrows df) (columns df)"

text \<open>
  \<open>d[k] = v\<close> on a dictionary and \<open>df[c] = values\<close> on a frame: an existing key keeps its
  place, a new one goes to the end. \<open>df[c]\<close> raises \<open>KeyError\<close> for a name that is no column,
  \<open>None\<close> among them.
\<close>

fun setitem :: "('k \<times> 'v) list \<Rightarrow> 'k \<Rightarrow> 'v \<Rightarrow> ('k \<times> 'v) list" where
  "setitem [] k v = [(k, v)]"
| "setitem (p # ps) k v = (if fst p = k then (k, v) # ps else p # setitem ps k v)"

definition getitem :: "'c cols \<Rightarrow> ustr option \<Rightarrow> exn + 'c list" where
  "getitem df key =
     (case key of
        None \<Rightarrow> Inl KeyError
      | Some c \<Rightarrow> (case map_of df c of None \<Rightarrow> Inl KeyError | Some vs \<Rightarrow> Inr vs))"

text \<open>
  \<open>final[c] = series\<close>, where \<open>final\<close> has the default index of length \<open>n\<close> and the series
  the index \<open>idx\<close> of the loaded frame: with equal indexes the values are taken as they
  stand; otherwise the series is reindexed, which raises \<open>ValueError\<close> for an index with a
  label twice, and gives at position \<open>i\<close> the value that carries the label \<open>i\<close>, or a
  missing value when no row carries it.
\<close>

definition aligned :: "label list \<Rightarrow> nat \<Rightarrow> 'c list \<Rightarrow> 'c option list" where
  "aligned idx n vs =
     (if idx = range_index n then map Some vs
      else map (\<lambda>i. map_of (zip idx vs) (IntLabel i)) [0..<n])"

definition reindex :: "label list \<Rightarrow> nat \<Rightarrow> 'c list \<Rightarrow> exn + 'c option list" where
  "reindex idx n vs =
     (if idx \<noteq> range_index n \<and> \<not> distinct idx then Inl ValueError
      else Inr (aligned idx n vs))"

text \<open>\<open>Series.dropna()\<close> and \<open>.fillna('')\<close>; a cell of the loaded file as a value.\<close>

definition dropna :: "ustr option list \<Rightarrow> ustr list" where
  "dropna vs = concat (map (\<lambda>v. case v of None \<Rightarrow> [] | Some s \<Rightarrow> [s]) vs)"

definition fillna_empty :: "ustr option \<Rightarrow> ustr" where
  "fillna_empty v = (case v of None \<Rightarrow> [] | Some s \<Rightarrow> s)"

definition raw_cell :: "ustr option \<Rightarrow> 'f pyval" where
  "raw_cell v = (case v of None \<Rightarrow> PNaN | Some s \<Rightarrow> PStr s)"

text \<open>
  \<open>.astype(str)\<close> on a cell: a string stays; for any other cell the library says whether
  it becomes a text or is missing afterwards. \<open>str_cell\<close> is the result as a value again.
\<close>

definition astype_str :: "'f pylib \<Rightarrow> 'f pyval \<Rightarrow> ustr option" where
  "astype_str L v = (case v of PStr s \<Rightarrow> Some s | _ \<Rightarrow> astype_other L v)"

definition str_cell :: "ustr option \<Rightarrow> 'f pyval" where
  "str_cell v = (case v of None \<Rightarrow> PNaN | Some s \<Rightarrow> PStr s)"

text \<open>
  A list of floats and \<open>None\<close> assigned as a column: with at least one float the column is
  a float column and \<open>None\<close> becomes NaN; a list of \<open>None\<close> only stays a column of \<open>None\<close>.
\<close>

definition to_series :: "'f option list \<Rightarrow> 'f pyval list" where
  "to_series xs =
     (if list_ex (\<lambda>x. x \<noteq> None) xs
      then map (\<lambda>x. case x of None \<Rightarrow> PNaN | Some r \<Rightarrow> PFloat r) xs
      else map (\<lambda>x. PNone) xs)"

definition isna :: "'f pyval \<Rightarrow> bool" where
  "isna v \<longleftrightarrow> v = PNaN \<or> v = PNone"

section \<open>Column detection\<close>

text \<open>\<open>cols_lower = {c.lower(): c for c in df.columns}\<close>.\<close>

definition cols_lower_of :: "'f pylib \<Rightarrow> ustr list \<Rightarrow> (ustr \<times> ustr) list" where
  "cols_lower_of L names = foldl (\<lambda>d c. setitem d (str_lower L c) c) [] names"

text \<open>\<open>for key in cols_lower: if P(key): col = cols_lower[key]; break\<close>.\<close>

definition first_key :: "(ustr \<Rightarrow> bool) \<Rightarrow> (ustr \<times> ustr) list \<Rightarrow> ustr option" where
  "first_key P d = (case find (\<lambda>kv. P (fst kv)) d of None \<Rightarrow> None | Some kv \<Rightarrow> Some (snd kv))"

definition wkt_name :: "ustr \<Rightarrow> bool" where
  "wkt_name name \<longleftrightarrow>
     str_contains (u ''wkt'') name \<or> str_contains (u ''point'') name
     \<or> str_contains (u ''geometry'') name"

definition looks_like_point :: "'f pylib \<Rightarrow> ustr option list \<Rightarrow> bool" where
  "looks_like_point L vs =
     (let sample_vals = take 5 (dropna vs)
      in list_ex (\<lambda>s. startswith (str_upper L (py_strip s)) (u ''POINT'')) sample_vals)"

definition find_wkt_col :: "'f pylib \<Rightarrow> dataframe \<Rightarrow> ustr option" where
  "find_wkt_col L df =
     (case first_key wkt_name (cols_lower_of L (map fst (columns df))) of
        Some c \<Rightarrow> Some c
      | None \<Rightarrow>
          (case find (\<lambda>cv. looks_like_point L (snd cv)) (columns df) of
             None \<Rightarrow> None
           | Some cv \<Rightarrow> Some (fst cv)))"

definition nombre_keys :: "ustr list" where
  "nombre_keys = [u ''nombre'', u ''name'', u ''title'', u ''placename'']"

definition find_nombre_col :: "'f pylib \<Rightarrow> ustr list \<Rightarrow> ustr \<Rightarrow> ustr option" where
  "find_nombre_col L names wkt_col =
     (case first_key (\<lambda>key. key \<in> set nombre_keys) (cols_lower_of L names) of
        Some c \<Rightarrow> Some c
      | None \<Rightarrow>
          (let candidates = filter (\<lambda>c. c \<noteq> wkt_col) names
           in case candidates of [] \<Rightarrow> None | c # _ \<Rightarrow> Some c))"

definition descr_name :: "ustr \<Rightarrow> bool" where
  "descr_name key \<longleftrightarrow>
     str_contains (u ''descrip'') key \<or> str_contains (u ''description'') key
     \<or> str_contains (u ''descripci'' @ [243] @ u ''n'') key \<or> str_contains (u ''desc'') key"

definition find_descr_col :: "'f pylib \<Rightarrow> ustr list \<Rightarrow> ustr option" where
  "find_descr_col L names = first_key descr_name (cols_lower_of L names)"

definition direccion_keys :: "ustr list" where
  "direccion_keys = [u ''direccion'', u ''address'', u ''addr'', u ''street'']"

definition find_direccion_col :: "'f pylib \<Rightarrow> ustr list \<Rightarrow> ustr option" where
  "find_direccion_col L names =
     first_key (\<lambda>key. key \<in> set direccion_keys) (cols_lower_of L names)"

section \<open>The conversion\<close>

text \<open>
  A row of the output file, with the fields of \<open>final_cols_order\<close>. A text field copied
  from the loaded frame can be missing (\<open>None\<close>).
\<close>

record 'f clean_record =
  CodigoZona :: ustr
  ZonaNombre :: ustr
  CodigoCliente :: ustr
  NombreCliente :: ustr
  Botica :: "ustr option"
  Referencias :: ustr
  Direccion :: "ustr option"
  Lat :: "'f pyval"
  Lng :: "'f pyval"
  DescripcionOriginal :: "ustr option"

text \<open>
  \<open>pd.DataFrame(parsed.tolist(), columns=[...five names...])\<close> needs five fields in every
  element; column \<open>k\<close> of it is the \<open>k\<close>-th field of every element.
\<close>

definition parsed_df :: "ustr list list \<Rightarrow> exn + ustr list list" where
  "parsed_df parsed =
     (if list_all (\<lambda>parts. length parts = 5) parsed then Inr parsed else Inl ValueError)"

definition parsed_col :: "ustr list list \<Rightarrow> nat \<Rightarrow> ustr list" where
  "parsed_col parsed k = map (\<lambda>parts. parts ! k) parsed"

text \<open>
  The rows of \<open>final\<close>: its ten columns side by side. \<open>final\<close> has the default index of
  \<open>parsed_df\<close>; the columns copied from the loaded frame have been reindexed to it.
\<close>

definition final_rows ::
  "ustr list \<Rightarrow> ustr list \<Rightarrow> ustr list \<Rightarrow> ustr list \<Rightarrow> ustr option list \<Rightarrow> ustr list
   \<Rightarrow> ustr option list \<Rightarrow> 'f pyval list \<Rightarrow> 'f pyval list \<Rightarrow> ustr option list
   \<Rightarrow> 'f clean_record list" where
  "final_rows cz zn cc nc bo rf di lats lngs ds =
     map (\<lambda>(a, b, c, d, e, f, g, h, i, j).
            \<lparr>CodigoZona = a, ZonaNombre = b, CodigoCliente = c, NombreCliente = d, Botica = e,
             Referencias = f, Direccion = g, Lat = h, Lng = i, DescripcionOriginal = j\<rparr>)
         (zip cz (zip zn (zip cc (zip nc (zip bo (zip rf (zip di (zip lats (zip lngs ds)))))))))"

text \<open>A value that the reindexing left without a row is NaN in the column.\<close>

definition nan_if_absent :: "'f pyval option \<Rightarrow> 'f pyval" where
  "nan_if_absent v = (case v of None \<Rightarrow> PNaN | Some c \<Rightarrow> c)"

definition missing_if_absent :: "ustr option option \<Rightarrow> ustr option" where
  "missing_if_absent v = (case v of None \<Rightarrow> None | Some c \<Rightarrow> c)"

text \<open>
  Lines 157 to 192 of \<open>convert_mymaps_csv\<close>, from the extraction of the coordinates to the
  last column of \<open>final\<close>: \<open>df\<close> holds the columns of the loaded frame (with the column
  \<open>__descr_missing__\<close> when there is no description column) and \<open>idx\<close> is its index.
\<close>

definition clean_rows ::
  "'f pylib \<Rightarrow> label list \<Rightarrow> ustr option cols \<Rightarrow> ustr \<Rightarrow> ustr option \<Rightarrow> ustr \<Rightarrow> ustr option
   \<Rightarrow> exn + 'f clean_record list" where
  "clean_rows L idx df wkt_col nombre_col descr_col direccion_col =
     bind_exn (getitem df (Some wkt_col)) (\<lambda>wkt_vals.
     bind_exn (apply_series (extract_lon_lat_from_wkt L)
                 (map (\<lambda>v. PStr (fillna_empty v)) wkt_vals)) (\<lambda>pairs.
     let latitudes = map fst pairs;
         longitudes = map snd pairs;
         df1 = map (\<lambda>cv. (fst cv, map raw_cell (snd cv))) df;
         df2 = setitem df1 (u ''Lat'') (to_series latitudes);
         df3 = setitem df2 (u ''Lng'') (to_series longitudes)
     in
     bind_exn (getitem df3 nombre_col) (\<lambda>nombre_vals.
     bind_exn (apply_series fix_mojibake_text (map (\<lambda>v. str_cell (astype_str L v)) nombre_vals))
       (\<lambda>nombre_fixed.
     (case nombre_col of
        None \<Rightarrow> Inl KeyError
      | Some nombre \<Rightarrow>
     let df4 = setitem df3 nombre nombre_fixed in
     bind_exn (getitem df4 (Some descr_col)) (\<lambda>descr_vals.
     bind_exn (apply_series fix_mojibake_text (map (\<lambda>v. str_cell (astype_str L v)) descr_vals))
       (\<lambda>descr_fixed.
     let df5 = setitem df4 descr_col descr_fixed in
     bind_exn (getitem df5 (Some descr_col)) (\<lambda>descr_series.
     bind_exn (apply_series split_standard_description descr_series) (\<lambda>parsed.
     bind_exn (parsed_df parsed) (\<lambda>parsed.
     let n = length parsed in
     bind_exn (getitem df5 (Some nombre)) (\<lambda>botica_vals.
     bind_exn (reindex idx n (map (\<lambda>v. py_strip (fillna_empty (astype_str L v))) botica_vals))
       (\<lambda>botica.
     bind_exn (getitem df5 (Some (u ''Lat''))) (\<lambda>lat_vals.
     bind_exn (reindex idx n lat_vals) (\<lambda>lat.
     bind_exn (getitem df5 (Some (u ''Lng''))) (\<lambda>lng_vals.
     bind_exn (reindex idx n lng_vals) (\<lambda>lng.
     bind_exn (getitem df5 (Some descr_col)) (\<lambda>descr_final.
     bind_exn (reindex idx n (map (astype_str L) descr_final)) (\<lambda>descripcion.
     bind_exn (case direccion_col of
                 None \<Rightarrow> Inr (replicate n (Some []))
               | Some direccion \<Rightarrow>
                   bind_exn (getitem df5 (Some direccion)) (\<lambda>vs.
                   reindex idx n (map (\<lambda>v. fillna_empty (astype_str L v)) vs)))
       (\<lambda>direccion_vals.
     Inr (final_rows (parsed_col parsed 0) (parsed_col parsed 1) (parsed_col parsed 2)
            (parsed_col parsed 3) botica (parsed_col parsed 4) direccion_vals
            (map nan_if_absent lat) (map nan_if_absent lng)
            (map missing_if_absent descripcion)))))))))))))))))))))"

text \<open>
  What the script prints, and the files it reads and writes: the export at \<open>INPUT_FILE\<close>
  (as \<open>read_csv\<close> loads it; \<open>None\<close> when there is no such file), \<open>clientes.csv\<close> at
  \<open>OUTPUT_FILE\<close>, and the copies in \<open>data_originales\<close>.
\<close>

datatype msg =
    BackupCreated
  | InputNotFound
  | NoWktColumn "ustr list"
  | NoDescriptionColumn
  | Saved
  | Summary nat nat
  | ScriptDone

record 'f world =
  input_file :: "dataframe option"
  output_file :: "'f clean_record list option"
  backups :: "dataframe list"
  stdout :: "msg list"

definition print :: "msg \<Rightarrow> 'f world \<Rightarrow> 'f world" where
  "print m w = w\<lparr>stdout := stdout w @ [m]\<rparr>"

text \<open>
  \<open>convert_mymaps_csv(INPUT_FILE, OUTPUT_FILE)\<close>: the exception that ends it, if any, and
  the world it leaves. \<open>sys.exit(1)\<close> is the exception \<open>SystemExit\<close>.
\<close>

definition convert_mymaps_csv :: "'f pylib \<Rightarrow> 'f world \<Rightarrow> exn option \<times> 'f world" where
  "convert_mymaps_csv L w =
     (case input_file w of
        None \<Rightarrow> (Some FileNotFoundError, w)
      | Some df \<Rightarrow>
          let names = map fst (columns df) in
          (case find_wkt_col L df of
             None \<Rightarrow> (Some SystemExit, print (NoWktColumn names) w)
           | Some wkt_col \<Rightarrow>
               let nombre_col = find_nombre_col L names wkt_col;
                   direccion_col = find_direccion_col L names;
                   (descr_col, cols, w1) =
                     (case find_descr_col L names of
                        Some c \<Rightarrow> (c, columns df, w)
                      | None \<Rightarrow>
                          (u ''__descr_missing__'',
                           setitem (columns df) (u ''__descr_missing__'')
                             (replicate (nrows df) (Some [])),
                           print NoDescriptionColumn w))
               in (case clean_rows L (index df) cols wkt_col nombre_col descr_col
                          direccion_col of
                     Inl e \<Rightarrow> (Some e, w1)
                   | Inr final \<Rightarrow>
                       (None,
                        print (Summary (length final) (length (filter (\<lambda>r. isna (Lat r)) final)))
                          (print Saved (w1\<lparr>output_file := Some final\<rparr>))))))"

text \<open>
  The script from its first line: the copy of the input, or the error message and
  \<open>sys.exit(1)\<close> when there is no input; then the conversion and the closing message.
\<close>

definition run_script :: "'f pylib \<Rightarrow> 'f world \<Rightarrow> exn option \<times> 'f world" where
  "run_script L w =
     (case input_file w of
        Some df \<Rightarrow>
          (case convert_mymaps_csv L (print BackupCreated (w\<lparr>backups := backups w @ [df]\<rparr>)) of
             (None, w') \<Rightarrow> (None, print ScriptDone w')
           | (Some e, w') \<Rightarrow> (Some e, w'))
      | None \<Rightarrow> (Some SystemExit, print InputNotFound w))"

section \<open>Notions of the specification\<close>

text \<open>
  A decimal number with an optional minus sign: an integer part of at least one digit and,
  optionally, a point with at least one digit behind it. \<open>dec_text neg ip fp\<close> is its text
  (\<open>fp = []\<close> stands for no fractional part).
\<close>

definition dec_ok :: "ustr \<Rightarrow> ustr \<Rightarrow> bool" where
  "dec_ok ip fp \<longleftrightarrow> ip \<noteq> [] \<and> list_all is_digit ip \<and> list_all is_digit fp"

definition dec_text :: "bool \<Rightarrow> ustr \<Rightarrow> ustr \<Rightarrow> ustr" where
  "dec_text neg ip fp = (if neg then [45] else []) @ ip @ (if fp = [] then [] else 46 # fp)"

text \<open>
  A text is parsable as a number when \<open>float\<close> accepts it. A point pattern is the token
  \<open>POINT\<close>, an opening parenthesis, a number, white space, a second number and a closing
  parenthesis, with optional white space around the parentheses.
\<close>

definition parsable :: "ustr \<Rightarrow> bool" where
  "parsable g \<longleftrightarrow> float_ok g"

definition point_pattern :: "ustr \<Rightarrow> bool" where
  "point_pattern t \<longleftrightarrow>
     (\<exists>w1 w2 g1 w3 g2 w4.
        t = u ''POINT'' @ w1 @ [40] @ w2 @ g1 @ w3 @ g2 @ w4 @ [41]
        \<and> list_all is_space w1 \<and> list_all is_space w2 \<and> list_all is_space w3 \<and> w3 \<noteq> []
        \<and> list_all is_space w4 \<and> parsable g1 \<and> parsable g2)"

definition contains_point :: "ustr \<Rightarrow> bool" where
  "contains_point s \<longleftrightarrow> (\<exists>pre t post. s = pre @ t @ post \<and> point_pattern t)"

text \<open>
  The segments of a description: the text split on the separator \<open>" - "\<close> after every dash
  with its surrounding white space has been normalised to that separator.
\<close>

definition segments :: "ustr \<Rightarrow> ustr list" where
  "segments d = map py_strip (py_split (u '' - '') (re_sub dash_re (u '' - '') (py_strip d)))"

text \<open>
  No geometry column: no lowercased column name holds one of the fragments \<open>wkt\<close>,
  \<open>point\<close>, \<open>geometry\<close>, and no column has, among its first five values that are not
  missing, one that starts with \<open>POINT\<close> once stripped and put in upper case.
\<close>

definition no_geometry_column :: "'f pylib \<Rightarrow> dataframe \<Rightarrow> bool" where
  "no_geometry_column L df \<longleftrightarrow>
     (\<forall>c\<in>set (map fst (columns df)). \<not> wkt_name (str_lower L c))
     \<and> (\<forall>cv\<in>set (columns df). \<forall>s\<in>set (take 5 (dropna (snd cv))).
           \<not> startswith (str_upper L (py_strip s)) (u ''POINT''))"

text \<open>
  The text of a cell of the loaded file after \<open>.astype(str)\<close> (for a missing cell, what the
  library makes of NaN), and the text that the encoding repair makes of a text.
\<close>

definition cell_text :: "'f pylib \<Rightarrow> ustr option \<Rightarrow> ustr option" where
  "cell_text L v = (case v of None \<Rightarrow> astype_other L PNaN | Some s \<Rightarrow> Some s)"

definition repair :: "ustr \<Rightarrow> ustr" where
  "repair s = (case fix_mojibake_text (PStr s :: unit pyval) of Inr (PStr t) \<Rightarrow> t | _ \<Rightarrow> s)"

text \<open>
  A library for running the model on ASCII headers and cells: \<open>lower\<close> and \<open>upper\<close> as
  they act on ASCII text, a float named by the literal it was read from, and \<open>.astype(str)\<close>
  as pandas 2 has it (\<open>nan\<close> for NaN, \<open>None\<close> for \<open>None\<close>, the literal for a float).
\<close>

definition ascii_lower :: "ustr \<Rightarrow> ustr" where
  "ascii_lower s = map (\<lambda>c. if 65 \<le> c \<and> c \<le> 90 then c + 32 else c) s"

definition ascii_upper :: "ustr \<Rightarrow> ustr" where
  "ascii_upper s = map (\<lambda>c. if 97 \<le> c \<and> c \<le> 122 then c - 32 else c) s"

definition ascii_lib :: "ustr pylib" where
  "ascii_lib =
     \<lparr>str_lower = ascii_lower, str_upper = ascii_upper, float_of = (\<lambda>s. s),
      astype_other = (\<lambda>v. case v of PFloat x \<Rightarrow> Some x | PNone \<Rightarrow> Some (u ''None'')
                             | _ \<Rightarrow> Some (u ''nan''))\<rparr>"

text \<open>
  What is known of \<open>str.lower()\<close> whatever the Unicode tables hold: on ASCII text it
  lowers the letters \<open>A\<close> to \<open>Z\<close> and leaves every other code point.
\<close>

definition lower_on_ascii :: "'f pylib \<Rightarrow> bool" where
  "lower_on_ascii L \<longleftrightarrow> (\<forall>s. list_all (\<lambda>c. c < 128) s \<longrightarrow> str_lower L s = ascii_lower s)"


section \<open>Properties of the encoding repair\<close>

lemmas eval_defs =
  u_def bind_exn_def try_except_def is_space_def is_digit_def strip_by_def py_strip_def
  strip_chars_def startswith_def py_split_def latin1_encode_def is_cont_def cons_ok_def
  latin1_utf8_roundtrip_def fix_mojibake_text_def ascii_lower_def ascii_upper_def

lemma ascii_lib_sel [simp]:
  "str_lower ascii_lib = ascii_lower" "str_upper ascii_lib = ascii_upper"
  "float_of ascii_lib s = s"
  "astype_other ascii_lib (PFloat s) = Some s"
  "astype_other ascii_lib PNaN = Some (u ''nan'')"
  "astype_other ascii_lib PNone = Some (u ''None'')"
  by (simp_all add: ascii_lib_def)

text \<open>
  C7. A text with neither U+00C3 nor U+00C2 is returned unchanged, so repairing it a second
  time gives the same text again.
\<close>

theorem fix_mojibake_text_clean_unchanged:
  assumes "195 \<notin> set s" and "194 \<notin> set s"
  shows "fix_mojibake_text (PStr s) = Inr (PStr s)
         \<and> bind_exn (fix_mojibake_text (PStr s)) fix_mojibake_text = fix_mojibake_text (PStr s)"
  using assms by (simp add: fix_mojibake_text_def bind_exn_def)

theorem fix_mojibake_text_clean_unchanged_witness:
  "195 \<notin> set [98, 111, 116, 105, 99, 97, 32, 243::nat]
   \<and> 194 \<notin> set [98, 111, 116, 105, 99, 97, 32, 243::nat]
   \<and> fix_mojibake_text (PStr [98, 111, 116, 105, 99, 97, 32, 243] :: unit pyval) =
       Inr (PStr [98, 111, 116, 105, 99, 97, 32, 243])"
  using fix_mojibake_text_clean_unchanged
          [where ?'a = unit and ?'b = unit, of "[98, 111, 116, 105, 99, 97, 32, 243]"]
  by simp

text \<open>
  C8. A text with U+00C3 or U+00C2 goes through the Latin-1/UTF-8 round trip: where the round
  trip raises, the text comes back unchanged, where it succeeds, its result is returned.
  No argument at all makes \<open>fix_mojibake_text\<close> raise.
\<close>

theorem fix_mojibake_text_roundtrip_or_unchanged:
  "(195 \<in> set s \<or> 194 \<in> set s \<longrightarrow>
      fix_mojibake_text (PStr s) =
        (case latin1_utf8_roundtrip s of Inl e \<Rightarrow> Inr (PStr s) | Inr t \<Rightarrow> Inr (PStr t)))
   \<and> (\<exists>w. fix_mojibake_text v = Inr w)"
  by (cases v; cases "latin1_utf8_roundtrip s")
     (auto simp: fix_mojibake_text_def try_except_def bind_exn_def split: sum.splits)

theorem fix_mojibake_text_roundtrip_or_unchanged_witness:
  "195 \<in> set [195, 65::nat]
   \<and> latin1_utf8_roundtrip [195, 65] = Inl UnicodeDecodeError
   \<and> fix_mojibake_text (PStr [195, 65] :: unit pyval) = Inr (PStr [195, 65])
   \<and> (\<exists>w. fix_mojibake_text (PStr [195, 65] :: unit pyval) = Inr w)"
proof -
  have rt: "latin1_utf8_roundtrip [195, 65] = Inl UnicodeDecodeError"
    by (simp add: eval_defs)
  from fix_mojibake_text_roundtrip_or_unchanged
         [where ?'a = unit and ?'b = unit, of "[195, 65]" "PStr [195, 65]"]
  show ?thesis by (simp add: rt)
qed

section \<open>Properties of the matcher and of the point pattern\<close>

declare rmatch.simps(4) [simp del]

subsection \<open>The first match on a text of the pattern's shape\<close>












lemma not_digit_46 [simp]: "\<not> is_digit 46" "\<not> minus_or_digit 46" "\<not> is_digit 45"
  by (simp_all add: is_digit_def minus_or_digit_def)




lemma space_facts [simp]:
  "is_space 32" "\<not> is_space 40" "\<not> is_space 41" "\<not> is_space 80"
  "\<not> minus_or_digit 32" "\<not> minus_or_digit 41"
  by (simp_all add: is_space_def minus_or_digit_def is_digit_def)




lemma dec_text_nonempty: "dec_ok ip fp \<Longrightarrow> dec_text neg ip fp \<noteq> []"
  by (auto simp: dec_ok_def dec_text_def)





lemma strip_by_keep:
  "s \<noteq> [] \<Longrightarrow> \<not> p (hd s) \<Longrightarrow> \<not> p (last s) \<Longrightarrow> strip_by p s = s"
proof -
  assume a: "s \<noteq> []" "\<not> p (hd s)" "\<not> p (last s)"
  from a(1,2) have 1: "dropWhile p s = s" by (cases s) auto
  from a(1,3) have 2: "dropWhile p (rev s) = rev s" by (cases "rev s") (auto simp: hd_rev [symmetric])
  show ?thesis by (simp add: strip_by_def 1 2)
qed


subsection \<open>Every match has the shape of the pattern\<close>

lemma mem_Chr: "y \<in> set (rmatch (Chr a) st) \<longleftrightarrow> fst st = a # fst y \<and> snd y = snd st"
  by (cases st; cases y; cases "fst st") auto

lemma mem_Cls:
  "y \<in> set (rmatch (Cls p) st) \<longleftrightarrow> (\<exists>x. p x \<and> fst st = x # fst y) \<and> snd y = snd st"
  by (cases st; cases y; cases "fst st") auto

lemma mem_Cat:
  "y \<in> set (rmatch (Cat r1 r2) st) \<longleftrightarrow> (\<exists>m\<in>set (rmatch r1 st). y \<in> set (rmatch r2 m))"
  by auto

lemma mem_Opt: "y \<in> set (rmatch (Opt r) st) \<longleftrightarrow> y \<in> set (rmatch r st) \<or> y = st"
  by auto

lemma mem_Grp:
  "y \<in> set (rmatch (Grp n r) st) \<longleftrightarrow>
     (\<exists>m\<in>set (rmatch r st).
        y = (fst m, (n, take (length (fst st) - length (fst m)) (fst st)) # snd m))"
  by auto

lemma mem_Star_Cls:
  "y \<in> set (rmatch (Star (Cls p)) (s, c))
   \<Longrightarrow> snd y = c \<and> (\<exists>w. list_all p w \<and> s = w @ fst y)"
proof (induction s)
  case Nil
  then show ?case by (subst (asm) rmatch.simps(4)) auto
next
  case (Cons x xs)
  show ?case
  proof (cases "p x")
    case True
    have "rmatch (Star (Cls p)) (x # xs, c) = rmatch (Star (Cls p)) (xs, c) @ [(x # xs, c)]"
      using True by (subst rmatch.simps(4)) simp
    with Cons.prems have "y \<in> set (rmatch (Star (Cls p)) (xs, c)) \<or> y = (x # xs, c)"
      by auto
    then show ?thesis
    proof
      assume "y \<in> set (rmatch (Star (Cls p)) (xs, c))"
      from Cons.IH [OF this] obtain w where "snd y = c" "list_all p w" "xs = w @ fst y"
        by blast
      with True have "list_all p (x # w) \<and> x # xs = (x # w) @ fst y" by simp
      with \<open>snd y = c\<close> show ?thesis by blast
    next
      assume "y = (x # xs, c)"
      then have "list_all p [] \<and> x # xs = [] @ fst y" by simp
      with \<open>y = (x # xs, c)\<close> show ?thesis by (metis snd_conv)
    qed
  next
    case False
    have "rmatch (Star (Cls p)) (x # xs, c) = [(x # xs, c)]"
      using False by (subst rmatch.simps(4)) simp
    with Cons.prems have "y = (x # xs, c)" by simp
    then have "list_all p [] \<and> x # xs = [] @ fst y" by simp
    with \<open>y = (x # xs, c)\<close> show ?thesis by (metis snd_conv)
  qed
qed

lemma mem_Plus_Cls:
  assumes "y \<in> set (rmatch (Plus (Cls p)) (s, c))"
  shows "snd y = c \<and> (\<exists>w. list_all p w \<and> w \<noteq> [] \<and> s = w @ fst y)"
proof -
  from assms obtain m where m: "m \<in> set (rmatch (Cls p) (s, c))"
    and y: "y \<in> set (rmatch (Star (Cls p)) m)"
    unfolding mem_Cat by blast
  from m obtain x where x: "p x" "s = x # fst m" "snd m = c"
    unfolding mem_Cls by auto
  from y have "y \<in> set (rmatch (Star (Cls p)) (fst m, c))" using x(3) by (metis prod.collapse)
  from mem_Star_Cls [OF this] obtain w where "snd y = c" "list_all p w" "fst m = w @ fst y"
    by blast
  with x have "list_all p (x # w) \<and> x # w \<noteq> [] \<and> s = (x # w) @ fst y" by simp
  with \<open>snd y = c\<close> show ?thesis by blast
qed

lemma mem_number_re:
  assumes "y \<in> set (rmatch number_re (s, c))"
  shows "snd y = c \<and> (\<exists>g. s = g @ fst y)"
proof -
  from assms obtain m where m: "m \<in> set (rmatch (Plus (Cls minus_or_digit)) (s, c))"
    and y: "y \<in> set (rmatch (Opt (Cat (Chr 46) (Plus (Cls is_digit)))) m)"
    unfolding number_re_def mem_Cat [of y "Plus (Cls minus_or_digit)"] by blast
  from mem_Plus_Cls [OF m] obtain a where a: "snd m = c" "s = a @ fst m" by blast
  from y have "y = m \<or> y \<in> set (rmatch (Cat (Chr 46) (Plus (Cls is_digit))) m)"
    unfolding mem_Opt by blast
  then show ?thesis
  proof
    assume "y = m"
    with a show ?thesis by blast
  next
    assume "y \<in> set (rmatch (Cat (Chr 46) (Plus (Cls is_digit))) m)"
    then obtain k where k: "k \<in> set (rmatch (Chr 46) m)"
      and yk: "y \<in> set (rmatch (Plus (Cls is_digit)) k)"
      unfolding mem_Cat [of y "Chr 46"] by blast
    from k have k': "fst m = 46 # fst k" "snd k = c" using a(1) by (auto simp: mem_Chr)
    from yk have "y \<in> set (rmatch (Plus (Cls is_digit)) (fst k, c))"
      using k'(2) by (metis prod.collapse)
    from mem_Plus_Cls [OF this] obtain b where "snd y = c" "fst k = b @ fst y" by blast
    with a k' have "s = (a @ 46 # b) @ fst y" by simp
    with \<open>snd y = c\<close> show ?thesis by blast
  qed
qed

lemma mem_Grp_number_re:
  assumes "y \<in> set (rmatch (Grp n number_re) (s, c))"
  shows "\<exists>g. s = g @ fst y \<and> snd y = (n, g) # c"
proof -
  from assms obtain m where m: "m \<in> set (rmatch number_re (s, c))"
    and y: "y = (fst m, (n, take (length s - length (fst m)) s) # snd m)"
    unfolding mem_Grp by auto
  from mem_number_re [OF m] obtain g where "snd m = c" "s = g @ fst m" by blast
  with y show ?thesis by auto
qed


lemma mem_lits:
  "y \<in> set (rmatch (lits cs r) (s, c)) \<Longrightarrow> \<exists>t. s = cs @ t \<and> y \<in> set (rmatch r (t, c))"
proof (induction cs arbitrary: s)
  case Nil
  then show ?case by simp
next
  case (Cons a cs)
  from Cons.prems obtain m where m: "m \<in> set (rmatch (Chr a) (s, c))"
    and y: "y \<in> set (rmatch (lits cs r) m)"
    by (auto simp: mem_Cat simp del: rmatch.simps)
  from m have "s = a # fst m" "snd m = c" by (auto simp: mem_Chr)
  with y Cons.IH [of "fst m"] show ?case by (cases m) auto
qed

lemma mem_wkt_re:
  assumes "y \<in> set (rmatch wkt_re (s, []))"
  shows "\<exists>w1 w2 g1 w3 g2 w4.
           s = u ''POINT'' @ w1 @ [40] @ w2 @ g1 @ w3 @ g2 @ w4 @ [41] @ fst y
           \<and> snd y = [(2, g2), (1, g1)]
           \<and> list_all is_space w1 \<and> list_all is_space w2 \<and> list_all is_space w3 \<and> w3 \<noteq> []
           \<and> list_all is_space w4"
proof -
  note mem_Cat [simp del] rmatch.simps [simp del]
  from mem_lits [OF assms [unfolded wkt_re_def]] obtain t0 where
    s: "s = u ''POINT'' @ t0" and
    y0: "y \<in> set (rmatch (Cat (Star (Cls is_space)) (Cat (Chr 40) (Cat (Star (Cls is_space))
           (Cat (Grp 1 number_re) (Cat (Plus (Cls is_space)) (Cat (Grp 2 number_re)
           (Cat (Star (Cls is_space)) (Chr 41))))))))  (t0, []))"
    by blast
  from y0 obtain m1 where m1: "m1 \<in> set (rmatch (Star (Cls is_space)) (t0, []))"
    and y1: "y \<in> set (rmatch (Cat (Chr 40) (Cat (Star (Cls is_space))
           (Cat (Grp 1 number_re) (Cat (Plus (Cls is_space)) (Cat (Grp 2 number_re)
           (Cat (Star (Cls is_space)) (Chr 41))))))) m1)"
    unfolding mem_Cat [of y "Star (Cls is_space)"] by blast
  from mem_Star_Cls [OF m1] obtain w1 where w1: "list_all is_space w1" "t0 = w1 @ fst m1"
    and c1: "snd m1 = []" by blast
  from y1 obtain m2 where m2: "m2 \<in> set (rmatch (Chr 40) m1)"
    and y2: "y \<in> set (rmatch (Cat (Star (Cls is_space))
           (Cat (Grp 1 number_re) (Cat (Plus (Cls is_space)) (Cat (Grp 2 number_re)
           (Cat (Star (Cls is_space)) (Chr 41)))))) m2)"
    unfolding mem_Cat [of y "Chr 40"] by blast
  from m2 have t2: "fst m1 = 40 # fst m2" and c2: "snd m2 = []"
    using c1 by (auto simp: mem_Chr)
  from y2 obtain m3 where m3: "m3 \<in> set (rmatch (Star (Cls is_space)) m2)"
    and y3: "y \<in> set (rmatch (Cat (Grp 1 number_re) (Cat (Plus (Cls is_space))
           (Cat (Grp 2 number_re) (Cat (Star (Cls is_space)) (Chr 41))))) m3)"
    unfolding mem_Cat [of y "Star (Cls is_space)"] by blast
  from m3 c2 have "m3 \<in> set (rmatch (Star (Cls is_space)) (fst m2, []))"
    by (metis prod.collapse)
  from mem_Star_Cls [OF this] obtain w2 where w2: "list_all is_space w2" "fst m2 = w2 @ fst m3"
    and c3: "snd m3 = []" by blast
  from y3 obtain m4 where m4: "m4 \<in> set (rmatch (Grp 1 number_re) m3)"
    and y4: "y \<in> set (rmatch (Cat (Plus (Cls is_space))
           (Cat (Grp 2 number_re) (Cat (Star (Cls is_space)) (Chr 41)))) m4)"
    unfolding mem_Cat [of y "Grp 1 number_re"] by blast
  from m4 c3 have "m4 \<in> set (rmatch (Grp 1 number_re) (fst m3, []))"
    by (metis prod.collapse)
  from mem_Grp_number_re [OF this] obtain g1 where g1: "fst m3 = g1 @ fst m4"
    and c4: "snd m4 = [(1, g1)]" by blast
  from y4 obtain m5 where m5: "m5 \<in> set (rmatch (Plus (Cls is_space)) m4)"
    and y5: "y \<in> set (rmatch (Cat (Grp 2 number_re) (Cat (Star (Cls is_space)) (Chr 41))) m5)"
    unfolding mem_Cat [of y "Plus (Cls is_space)"] by blast
  from m5 c4 have "m5 \<in> set (rmatch (Plus (Cls is_space)) (fst m4, [(1, g1)]))"
    by (metis prod.collapse)
  from mem_Plus_Cls [OF this] obtain w3 where w3: "list_all is_space w3" "w3 \<noteq> []"
    "fst m4 = w3 @ fst m5" and c5: "snd m5 = [(1, g1)]" by blast
  from y5 obtain m6 where m6: "m6 \<in> set (rmatch (Grp 2 number_re) m5)"
    and y6: "y \<in> set (rmatch (Cat (Star (Cls is_space)) (Chr 41)) m6)"
    unfolding mem_Cat [of y "Grp 2 number_re"] by blast
  from m6 c5 have "m6 \<in> set (rmatch (Grp 2 number_re) (fst m5, [(1, g1)]))"
    by (metis prod.collapse)
  from mem_Grp_number_re [OF this] obtain g2 where g2: "fst m5 = g2 @ fst m6"
    and c6: "snd m6 = [(2, g2), (1, g1)]" by blast
  from y6 obtain m7 where m7: "m7 \<in> set (rmatch (Star (Cls is_space)) m6)"
    and y7: "y \<in> set (rmatch (Chr 41) m7)"
    unfolding mem_Cat [of y "Star (Cls is_space)"] by blast
  from m7 c6 have "m7 \<in> set (rmatch (Star (Cls is_space)) (fst m6, [(2, g2), (1, g1)]))"
    by (metis prod.collapse)
  from mem_Star_Cls [OF this] obtain w4 where w4: "list_all is_space w4" "fst m6 = w4 @ fst m7"
    and c7: "snd m7 = [(2, g2), (1, g1)]" by blast
  from y7 have t8: "fst m7 = 41 # fst y" and c8: "snd y = [(2, g2), (1, g1)]"
    using c7 by (auto simp: mem_Chr)
  have "s = u ''POINT'' @ w1 @ [40] @ w2 @ g1 @ w3 @ g2 @ w4 @ [41] @ fst y"
    using s w1(2) t2 w2(2) g1 w3(3) g2 w4(2) t8 by simp
  with c8 w1(1) w2(1) w3(1,2) w4(1) show ?thesis by blast
qed

lemma re_search_Some:
  "re_search r s = Some y \<Longrightarrow> \<exists>pre t. s = pre @ t \<and> y \<in> set (rmatch r (t, []))"
proof (induction s)
  case Nil
  then have "y \<in> set (rmatch r ([], []))"
    by (auto simp: re_match_def split: list.splits)
  then show ?case by blast
next
  case (Cons x xs)
  show ?case
  proof (cases "re_match r (x # xs)")
    case None
    with Cons.prems have "re_search r xs = Some y" by simp
    from Cons.IH [OF this] obtain pre t where "xs = pre @ t" "y \<in> set (rmatch r (t, []))"
      by blast
    then have "x # xs = (x # pre) @ t" by simp
    with \<open>y \<in> set (rmatch r (t, []))\<close> show ?thesis by blast
  next
    case (Some st)
    with Cons.prems have "y \<in> set (rmatch r (x # xs, []))"
      by (auto simp: re_match_def split: list.splits)
    then have "x # xs = [] @ (x # xs) \<and> y \<in> set (rmatch r (x # xs, []))" by simp
    then show ?thesis by blast
  qed
qed

lemma strip_by_sub: "\<exists>a b. s = a @ strip_by p s @ b"
proof -
  have 1: "s = takeWhile p s @ dropWhile p s" by simp
  have "rev (dropWhile p s) = takeWhile p (rev (dropWhile p s)) @ dropWhile p (rev (dropWhile p s))"
    by simp
  then have "dropWhile p s = strip_by p s @ rev (takeWhile p (rev (dropWhile p s)))"
    unfolding strip_by_def by (metis rev_append rev_rev_ident)
  with 1 show ?thesis by metis
qed


subsection \<open>The search behind a prefix\<close>










subsection \<open>The claims about the point\<close>

lemmas point_eval =
  u_def extract_lon_lat_from_wkt_def py_strip_def strip_chars_def strip_by_def is_space_def
  is_digit_def minus_or_digit_def wkt_re_def number_re_def re_match_def group_def py_float_def
  float_ok_def bind_exn_def try_except_def rmatch.simps

lemma extract_Some_contains:
  assumes "extract_lon_lat_from_wkt L (PStr s) \<noteq> Inr (None, None)"
  shows "contains_point s"
proof -
  let ?s' = "strip_chars (u [CHR 0x27]) (strip_chars (u [CHR 0x22]) (py_strip s))"
  from assms obtain m where m: "re_search wkt_re ?s' = Some m"
    by (auto simp: extract_lon_lat_from_wkt_def Let_def split: option.splits)
  from re_search_Some [OF m] obtain pre t where t: "?s' = pre @ t"
    and "m \<in> set (rmatch wkt_re (t, []))" by blast
  from mem_wkt_re [OF this(2)] obtain w1 w2 g1 w3 g2 w4 where
    sh: "t = u ''POINT'' @ w1 @ [40] @ w2 @ g1 @ w3 @ g2 @ w4 @ [41] @ fst m"
    and caps: "snd m = [(2, g2), (1, g1)]"
    and ws: "list_all is_space w1" "list_all is_space w2" "list_all is_space w3" "w3 \<noteq> []"
            "list_all is_space w4"
    by blast
  from caps have gr: "group (snd m) 1 = Some g1" "group (snd m) 2 = Some g2"
    by (simp_all add: group_def)
  from assms have "parsable g1 \<and> parsable g2"
    unfolding extract_lon_lat_from_wkt_def pyval.case Let_def m option.case gr
    by (auto simp: parsable_def py_float_def bind_exn_def try_except_def split: if_splits)
  then have "parsable g1" "parsable g2" by simp_all
  with ws have pp: "point_pattern (u ''POINT'' @ w1 @ [40] @ w2 @ g1 @ w3 @ g2 @ w4 @ [41])"
    unfolding point_pattern_def by blast
  obtain a1 b1 where 1: "s = a1 @ py_strip s @ b1"
    unfolding py_strip_def using strip_by_sub by blast
  obtain a2 b2 where 2: "py_strip s = a2 @ strip_chars (u [CHR 0x22]) (py_strip s) @ b2"
    unfolding strip_chars_def using strip_by_sub by blast
  obtain a3 b3 where 3: "strip_chars (u [CHR 0x22]) (py_strip s) = a3 @ ?s' @ b3"
    unfolding strip_chars_def using strip_by_sub by blast
  have "s = (a1 @ a2 @ a3 @ pre) @ (u ''POINT'' @ w1 @ [40] @ w2 @ g1 @ w3 @ g2 @ w4 @ [41])
             @ (fst m @ b3 @ b2 @ b1)"
    by (subst 1, subst 2, subst 3, subst t, subst sh) simp
  with pp show ?thesis unfolding contains_point_def by blast
qed




text \<open>
  C6. A text without a point pattern gives the absent pair, and so do the empty text,
  \<open>POINT()\<close>, \<open>LINESTRING (0 0, 1 1)\<close> and every value that is not a string; no argument
  makes \<open>extract_lon_lat_from_wkt\<close> raise.
\<close>

theorem extract_absent_without_point:
  "(\<not> contains_point s \<longrightarrow> extract_lon_lat_from_wkt L (PStr s) = Inr (None, None))
   \<and> extract_lon_lat_from_wkt L (PStr []) = Inr (None, None)
   \<and> extract_lon_lat_from_wkt L (PStr (u ''POINT()'')) = Inr (None, None)
   \<and> extract_lon_lat_from_wkt L (PStr (u ''LINESTRING (0 0, 1 1)'')) = Inr (None, None)
   \<and> ((\<forall>t. v \<noteq> PStr t) \<longrightarrow> extract_lon_lat_from_wkt L v = Inr (None, None))
   \<and> (\<exists>r. extract_lon_lat_from_wkt L v = Inr r)"
proof -
  have 1: "\<not> contains_point s \<longrightarrow> extract_lon_lat_from_wkt L (PStr s) = Inr (None, None)"
    using extract_Some_contains by blast
  have 2: "extract_lon_lat_from_wkt L (PStr []) = Inr (None, None)"
    by (simp add: point_eval)
  have 3: "extract_lon_lat_from_wkt L (PStr (u ''POINT()'')) = Inr (None, None)"
    by (simp add: point_eval)
  have 4: "extract_lon_lat_from_wkt L (PStr (u ''LINESTRING (0 0, 1 1)'')) = Inr (None, None)"
    by (simp add: point_eval)
  have 5: "(\<forall>t. v \<noteq> PStr t) \<longrightarrow> extract_lon_lat_from_wkt L v = Inr (None, None)"
    by (cases v) (simp_all add: extract_lon_lat_from_wkt_def)
  have 6: "\<exists>r. extract_lon_lat_from_wkt L v = Inr r"
    by (cases v)
       (auto simp: extract_lon_lat_from_wkt_def Let_def try_except_def bind_exn_def
             split: option.splits sum.splits)
  from 1 2 3 4 5 6 show ?thesis by blast
qed

theorem extract_absent_without_point_witness:
  "\<not> contains_point (u ''POINT'')
   \<and> extract_lon_lat_from_wkt ascii_lib (PStr (u ''POINT'')) = Inr (None, None)
   \<and> (\<forall>t. (PNaN :: ustr pyval) \<noteq> PStr t)
   \<and> extract_lon_lat_from_wkt ascii_lib PNaN = Inr (None, None)"
proof -
  have "\<not> contains_point (u ''POINT'')"
  proof
    assume "contains_point (u ''POINT'')"
    then obtain pre t post where "u ''POINT'' = pre @ t @ post" "point_pattern t"
      unfolding contains_point_def by blast
    then have "length (u ''POINT'') \<ge> length t" "length t \<ge> 6"
      by (auto simp: point_pattern_def u_def)
    then show False by (simp add: u_def)
  qed
  with extract_absent_without_point [of "u ''POINT''" ascii_lib PNaN] show ?thesis by simp
qed





section \<open>Properties of the description split\<close>

declare pad_x.simps [simp del] split_acc.simps [simp del] re_sub.simps [simp del]

lemmas split_eval =
  eval_defs split_standard_description_def dash_re_def is_dash_def re_match_def rmatch.simps
  segments_def pad_x.simps split_acc.simps re_sub.simps

lemma pad_x_replicate: "pad_x parts = parts @ replicate (5 - length parts) (u ''x'')"
proof (induction parts rule: pad_x.induct)
  case (1 parts)
  show ?case
  proof (cases "length parts < 5")
    case True
    then have "5 - length parts = Suc (5 - length (parts @ [u ''x'']))" by simp
    with True "1.IH" show ?thesis
      by (subst pad_x.simps) (simp add: replicate_app_Cons_same)
  next
    case False
    then show ?thesis by (subst pad_x.simps) simp
  qed
qed

lemma fix_mojibake_text_str: "\<exists>d'. fix_mojibake_text (PStr d :: 'f pyval) = Inr (PStr d')"
  by (auto simp: fix_mojibake_text_def try_except_def bind_exn_def split: sum.splits)

lemma split_standard_description_segments:
  assumes "py_strip d \<noteq> []" and "fix_mojibake_text (PStr d :: 'f pyval) = Inr (PStr d')"
  shows "split_standard_description (PStr d :: 'f pyval) =
           Inr (if length (segments d') < 5
                then segments d' @ replicate (5 - length (segments d')) (u ''x'')
                else if length (segments d') > 5
                then take 4 (segments d') @ [py_join (u '' - '') (drop 4 (segments d'))]
                else segments d')"
  using assms
  by (simp add: split_standard_description_def bind_exn_def Let_def pad_x_replicate
                segments_def)

text \<open>
  C4. The result always has five fields. A value that is not a string and a blank text give
  five times \<open>x\<close>. Otherwise, with the segments of the repaired text: fewer than five are
  padded with \<open>x\<close>; of more than five the first four are kept and the others joined with
  \<open>" - "\<close> into the fifth; \<open>A - B - C - D - E - F - G\<close> gives \<open>A, B, C, D, E - F - G\<close>.
\<close>

theorem split_standard_description_five_fields:
  "(\<exists>parts. split_standard_description (desc :: 'f pyval) = Inr parts \<and> length parts = 5)
   \<and> ((\<forall>t. desc = PStr t \<longrightarrow> py_strip t = []) \<longrightarrow>
        split_standard_description (desc :: 'f pyval) = Inr (replicate 5 (u ''x'')))
   \<and> (py_strip d \<noteq> [] \<longrightarrow>
        (\<exists>d'. fix_mojibake_text (PStr d :: 'f pyval) = Inr (PStr d')
           \<and> (length (segments d') < 5 \<longrightarrow>
                split_standard_description (PStr d :: 'f pyval) =
                  Inr (segments d' @ replicate (5 - length (segments d')) (u ''x'')))
           \<and> (length (segments d') = 5 \<longrightarrow>
                split_standard_description (PStr d :: 'f pyval) = Inr (segments d'))
           \<and> (length (segments d') > 5 \<longrightarrow>
                split_standard_description (PStr d :: 'f pyval) =
                  Inr (take 4 (segments d') @ [py_join (u '' - '') (drop 4 (segments d'))]))))
   \<and> split_standard_description (PStr (u ''A - B - C - D - E - F - G'')) =
        Inr [u ''A'', u ''B'', u ''C'', u ''D'', u ''E - F - G'']"
proof -
  have blank: "(\<forall>t. desc = PStr t \<longrightarrow> py_strip t = []) \<longrightarrow>
        split_standard_description (desc :: 'f pyval) = Inr (replicate 5 (u ''x''))"
    by (cases desc) (simp_all add: split_standard_description_def numeral_eq_Suc)
  have segs: "py_strip d \<noteq> [] \<longrightarrow>
        (\<exists>d'. fix_mojibake_text (PStr d :: 'f pyval) = Inr (PStr d')
           \<and> (length (segments d') < 5 \<longrightarrow>
                split_standard_description (PStr d :: 'f pyval) =
                  Inr (segments d' @ replicate (5 - length (segments d')) (u ''x'')))
           \<and> (length (segments d') = 5 \<longrightarrow>
                split_standard_description (PStr d :: 'f pyval) = Inr (segments d'))
           \<and> (length (segments d') > 5 \<longrightarrow>
                split_standard_description (PStr d :: 'f pyval) =
                  Inr (take 4 (segments d') @ [py_join (u '' - '') (drop 4 (segments d'))])))"
  proof
    assume ne: "py_strip d \<noteq> []"
    obtain d' where d': "fix_mojibake_text (PStr d :: 'f pyval) = Inr (PStr d')"
      using fix_mojibake_text_str by blast
    note eq = split_standard_description_segments [OF ne d']
    have "length (segments d') < 5 \<longrightarrow>
                split_standard_description (PStr d :: 'f pyval) =
                  Inr (segments d' @ replicate (5 - length (segments d')) (u ''x''))"
      and "length (segments d') = 5 \<longrightarrow> split_standard_description (PStr d :: 'f pyval) = Inr (segments d')"
      and "length (segments d') > 5 \<longrightarrow>
                split_standard_description (PStr d :: 'f pyval) =
                  Inr (take 4 (segments d') @ [py_join (u '' - '') (drop 4 (segments d'))])"
      by (simp_all add: eq)
    with d' show "\<exists>d'. fix_mojibake_text (PStr d :: 'f pyval) = Inr (PStr d')
           \<and> (length (segments d') < 5 \<longrightarrow>
                split_standard_description (PStr d :: 'f pyval) =
                  Inr (segments d' @ replicate (5 - length (segments d')) (u ''x'')))
           \<and> (length (segments d') = 5 \<longrightarrow>
                split_standard_description (PStr d :: 'f pyval) = Inr (segments d'))
           \<and> (length (segments d') > 5 \<longrightarrow>
                split_standard_description (PStr d :: 'f pyval) =
                  Inr (take 4 (segments d') @ [py_join (u '' - '') (drop 4 (segments d'))]))"
      by blast
  qed
  have five: "\<exists>parts. split_standard_description (desc :: 'f pyval) = Inr parts \<and> length parts = 5"
  proof (cases "\<forall>t. desc = PStr t \<longrightarrow> py_strip t = []")
    case True
    with blank show ?thesis by simp
  next
    case False
    then obtain t where t: "desc = PStr t" "py_strip t \<noteq> []" by blast
    obtain t' where t': "fix_mojibake_text (PStr t :: 'f pyval) = Inr (PStr t')"
      using fix_mojibake_text_str by blast
    show ?thesis
      unfolding t(1) split_standard_description_segments [OF t(2) t'] by auto
  qed
  have ex: "split_standard_description (PStr (u ''A - B - C - D - E - F - G'')) =
        Inr [u ''A'', u ''B'', u ''C'', u ''D'', u ''E - F - G'']"
    by (simp add: split_eval)
  from five blank segs ex show ?thesis by blast
qed

theorem split_standard_description_five_fields_witness:
  "split_standard_description (PNaN :: unit pyval) = Inr (replicate 5 (u ''x''))
   \<and> py_strip (u ''A - B'') \<noteq> []
   \<and> fix_mojibake_text (PStr (u ''A - B'') :: unit pyval) = Inr (PStr (u ''A - B''))
   \<and> segments (u ''A - B'') = [u ''A'', u ''B'']
   \<and> split_standard_description (PStr (u ''A - B'') :: unit pyval)
       = Inr [u ''A'', u ''B'', u ''x'', u ''x'', u ''x'']"
proof -
  have 1: "py_strip (u ''A - B'') \<noteq> []" by (simp add: split_eval)
  have 2: "fix_mojibake_text (PStr (u ''A - B'') :: unit pyval) = Inr (PStr (u ''A - B''))"
    by (simp add: split_eval)
  have 3: "segments (u ''A - B'') = [u ''A'', u ''B'']" by (simp add: split_eval)
  from split_standard_description_five_fields [where ?'f = unit, of PNaN "u ''A - B''"] 1 2 3
  show ?thesis by (auto simp: numeral_eq_Suc)
qed




section \<open>Properties of the column detection and of the fatal errors\<close>

lemma setitem_keys: "fst ` set (setitem d k v) = insert k (fst ` set d)"
  by (induction d) auto

lemma setitem_new: "k \<notin> fst ` set d \<Longrightarrow> setitem d k v = d @ [(k, v)]"
  by (induction d) auto

lemma cols_lower_fold_keys:
  "fst ` set (foldl (\<lambda>d c. setitem d (f c) c) acc names) = fst ` set acc \<union> f ` set names"
  by (induction names arbitrary: acc) (auto simp: setitem_keys)

lemma cols_lower_keys: "fst ` set (cols_lower_of L names) = str_lower L ` set names"
  by (simp add: cols_lower_of_def cols_lower_fold_keys)

lemma first_key_None: "first_key P d = None \<longleftrightarrow> (\<forall>k\<in>fst ` set d. \<not> P k)"
proof -
  have "first_key P d = None \<longleftrightarrow> find (\<lambda>kv. P (fst kv)) d = None"
    by (simp add: first_key_def split: option.splits)
  then show ?thesis by (auto simp: find_None_iff)
qed

lemma first_key_cols_lower_None:
  "first_key P (cols_lower_of L names) = None \<longleftrightarrow> (\<forall>c\<in>set names. \<not> P (str_lower L c))"
  by (simp add: first_key_None cols_lower_keys)

lemma find_wkt_col_None: "find_wkt_col L df = None \<longleftrightarrow> no_geometry_column L df"
proof -
  have "(find (\<lambda>cv. looks_like_point L (snd cv)) (columns df) = None)
        \<longleftrightarrow> (\<forall>cv\<in>set (columns df). \<forall>s\<in>set (take 5 (dropna (snd cv))).
               \<not> startswith (str_upper L (py_strip s)) (u ''POINT''))"
    by (auto simp: find_None_iff looks_like_point_def Let_def list_ex_iff)
  then show ?thesis
    unfolding find_wkt_col_def no_geometry_column_def
    using first_key_cols_lower_None [of wkt_name L "map fst (columns df)"]
    by (auto split: option.splits)
qed

text \<open>
  C5. Without an input file, and with an input file in which no geometry column is found,
  the script ends with \<open>SystemExit\<close>; it has printed one error message (after the message
  about the copy, when there was a file to copy), and the output file is as it was.
\<close>

theorem run_script_fatal_errors:
  "(input_file w = None \<longrightarrow>
      run_script L w = (Some SystemExit, w\<lparr>stdout := stdout w @ [InputNotFound]\<rparr>))
   \<and> (input_file w = Some df \<and> no_geometry_column L df \<longrightarrow>
      run_script L w =
        (Some SystemExit,
         w\<lparr>backups := backups w @ [df],
           stdout := stdout w @ [BackupCreated, NoWktColumn (map fst (columns df))]\<rparr>))
   \<and> (input_file w = None \<or> (input_file w = Some df \<and> no_geometry_column L df) \<longrightarrow>
      fst (run_script L w) = Some SystemExit
      \<and> output_file (snd (run_script L w)) = output_file w)"
proof -
  have 1: "input_file w = None \<longrightarrow>
      run_script L w = (Some SystemExit, w\<lparr>stdout := stdout w @ [InputNotFound]\<rparr>)"
    by (simp add: run_script_def print_def)
  have 2: "input_file w = Some df \<and> no_geometry_column L df \<longrightarrow>
      run_script L w =
        (Some SystemExit,
         w\<lparr>backups := backups w @ [df],
           stdout := stdout w @ [BackupCreated, NoWktColumn (map fst (columns df))]\<rparr>)"
    by (simp add: run_script_def convert_mymaps_csv_def print_def find_wkt_col_None [symmetric])
  from 1 2 show ?thesis by auto
qed

lemmas detect_eval =
  eval_defs no_geometry_column_def wkt_name_def descr_name_def dropna_def cols_lower_of_def
  first_key_def find_wkt_col_def find_nombre_col_def find_descr_col_def find_direccion_col_def
  nombre_keys_def direccion_keys_def looks_like_point_def range_index_def nrows_def

theorem run_script_fatal_errors_witness:
  "input_file (\<lparr>input_file = None, output_file = None, backups = [], stdout = []\<rparr> :: ustr world)
     = None
   \<and> run_script ascii_lib \<lparr>input_file = None, output_file = None, backups = [], stdout = []\<rparr>
       = (Some SystemExit,
          \<lparr>input_file = None, output_file = None, backups = [], stdout = [InputNotFound]\<rparr>)
   \<and> no_geometry_column ascii_lib
         \<lparr>columns = [(u ''nombre'', [Some (u ''Botica A'')])], index = [IntLabel 0]\<rparr>
   \<and> run_script ascii_lib
         \<lparr>input_file = Some \<lparr>columns = [(u ''nombre'', [Some (u ''Botica A'')])],
                              index = [IntLabel 0]\<rparr>,
          output_file = None, backups = [], stdout = []\<rparr>
       = (Some SystemExit,
          \<lparr>input_file = Some \<lparr>columns = [(u ''nombre'', [Some (u ''Botica A'')])],
                               index = [IntLabel 0]\<rparr>,
           output_file = None,
           backups = [\<lparr>columns = [(u ''nombre'', [Some (u ''Botica A'')])],
                       index = [IntLabel 0]\<rparr>],
           stdout = [BackupCreated, NoWktColumn [u ''nombre'']]\<rparr>)"
proof -
  let ?df = "\<lparr>columns = [(u ''nombre'', [Some (u ''Botica A'')])], index = [IntLabel 0]\<rparr>"
  have ng: "no_geometry_column ascii_lib ?df"
    by (simp add: detect_eval)
  from run_script_fatal_errors
         [of "\<lparr>input_file = None, output_file = None, backups = [], stdout = []\<rparr>"
             ascii_lib "\<lparr>columns = [], index = []\<rparr>"]
       run_script_fatal_errors
         [of "\<lparr>input_file = Some ?df, output_file = None, backups = [], stdout = []\<rparr>"
             ascii_lib ?df]
       ng
  show ?thesis by simp
qed

subsection \<open>Detection by name\<close>

lemma cols_lower_fold_distinct:
  "distinct (map f names) \<Longrightarrow> f ` set names \<inter> fst ` set acc = {}
   \<Longrightarrow> foldl (\<lambda>d c. setitem d (f c) c) acc names = acc @ map (\<lambda>c. (f c, c)) names"
proof (induction names arbitrary: acc)
  case Nil
  show ?case by simp
next
  case (Cons c names)
  from Cons.prems have new: "f c \<notin> fst ` set acc" by auto
  have "f ` set names \<inter> fst ` set (acc @ [(f c, c)]) = {}"
    using Cons.prems by auto
  with Cons.prems Cons.IH [of "acc @ [(f c, c)]"] show ?case
    by (simp add: setitem_new [OF new])
qed

lemma cols_lower_distinct:
  "distinct (map (str_lower L) names)
   \<Longrightarrow> cols_lower_of L names = map (\<lambda>c. (str_lower L c, c)) names"
  using cols_lower_fold_distinct [of "str_lower L" names "[]"] by (simp add: cols_lower_of_def)

lemma first_key_first_column:
  assumes "distinct (map (str_lower L) names)" and "names = pre @ c # post"
    and "\<forall>x\<in>set pre. \<not> P (str_lower L x)" and "P (str_lower L c)"
  shows "first_key P (cols_lower_of L names) = Some c"
proof -
  have "find (\<lambda>kv. P (fst kv)) (map (\<lambda>c. (str_lower L c, c)) (pre @ c # post))
          = Some (str_lower L c, c)"
    using assms(3,4) by (induction pre) auto
  moreover have "cols_lower_of L names = map (\<lambda>c. (str_lower L c, c)) (pre @ c # post)"
    using cols_lower_distinct [OF assms(1)] assms(2) by simp
  ultimately show ?thesis
    by (simp add: first_key_def)
qed

lemma setitem_set: "set (setitem d k v) \<subseteq> insert (k, v) (set d)"
  by (induction d) auto

lemma cols_lower_fold_set:
  "set (foldl (\<lambda>d c. setitem d (f c) c) acc names) \<subseteq> set acc \<union> (\<lambda>c. (f c, c)) ` set names"
proof (induction names arbitrary: acc)
  case Nil
  show ?case by simp
next
  case (Cons c names)
  from Cons.IH [of "setitem acc (f c) c"] setitem_set [of acc "f c" c]
  show ?case by auto
qed

lemma first_key_Some:
  assumes "first_key P (cols_lower_of L names) = Some c"
  shows "c \<in> set names \<and> P (str_lower L c)"
proof -
  from assms obtain kv where kv: "find (\<lambda>kv. P (fst kv)) (cols_lower_of L names) = Some kv" "snd kv = c"
    by (auto simp: first_key_def split: option.splits)
  then have "kv \<in> set (cols_lower_of L names)" "P (fst kv)"
    by (auto simp: find_Some_iff)
  moreover have "set (cols_lower_of L names) \<subseteq> (\<lambda>c. (str_lower L c, c)) ` set names"
    using cols_lower_fold_set [of "str_lower L" "[]" names] by (simp add: cols_lower_of_def)
  ultimately show ?thesis using kv(2) by auto
qed

lemma find_wkt_col_in: "find_wkt_col L df = Some wc \<Longrightarrow> wc \<in> fst ` set (columns df)"
proof -
  assume a: "find_wkt_col L df = Some wc"
  show ?thesis
  proof (cases "first_key wkt_name (cols_lower_of L (map fst (columns df)))")
    case (Some c)
    with a first_key_Some [OF Some] show ?thesis by (simp add: find_wkt_col_def)
  next
    case None
    with a obtain cv where "find (\<lambda>cv. looks_like_point L (snd cv)) (columns df) = Some cv" "fst cv = wc"
      by (auto simp: find_wkt_col_def split: option.splits)
    then show ?thesis by (auto simp: find_Some_iff)
  qed
qed

lemma find_nombre_col_in: "find_nombre_col L names wc = Some nc \<Longrightarrow> nc \<in> set names"
proof -
  assume a: "find_nombre_col L names wc = Some nc"
  show ?thesis
  proof (cases "first_key (\<lambda>key. key \<in> set nombre_keys) (cols_lower_of L names)")
    case (Some c)
    with a first_key_Some [OF Some] show ?thesis by (simp add: find_nombre_col_def)
  next
    case None
    with a have "filter (\<lambda>c. c \<noteq> wc) names \<noteq> []" "nc = hd (filter (\<lambda>c. c \<noteq> wc) names)"
      by (auto simp: find_nombre_col_def Let_def split: list.splits)
    then have "nc \<in> set (filter (\<lambda>c. c \<noteq> wc) names)" using hd_in_set by blast
    then show ?thesis by simp
  qed
qed

section \<open>Properties of the conversion\<close>

lemma fix_mojibake_text_repair: "fix_mojibake_text (PStr s) = Inr (PStr (repair s))"
proof -
  obtain d' where d: "fix_mojibake_text (PStr s :: unit pyval) = Inr (PStr d')"
    using fix_mojibake_text_str by blast
  then have "repair s = d'" by (simp add: repair_def)
  with d show ?thesis
    by (auto simp: fix_mojibake_text_def try_except_def bind_exn_def split: if_splits sum.splits)
qed

lemma fix_mojibake_text_str_cell:
  "fix_mojibake_text (str_cell x) = Inr (str_cell (map_option repair x))"
  by (cases x) (simp_all add: str_cell_def fix_mojibake_text_repair, simp add: fix_mojibake_text_def)

lemma apply_series_total:
  "(\<And>x. x \<in> set xs \<Longrightarrow> f x = Inr (g x)) \<Longrightarrow> apply_series f xs = Inr (map g xs)"
  by (induction xs) (simp_all add: bind_exn_def)

lemma apply_series_fix:
  "apply_series fix_mojibake_text (map (\<lambda>v. str_cell (h v)) vs)
     = Inr (map (\<lambda>v. str_cell (map_option repair (h v))) vs)"
  by (induction vs) (simp_all add: bind_exn_def fix_mojibake_text_str_cell)

lemma extract_never_raises: "\<exists>r. extract_lon_lat_from_wkt L v = Inr r"
  by (cases v)
     (auto simp: extract_lon_lat_from_wkt_def Let_def try_except_def bind_exn_def
           split: option.splits sum.splits)

lemma extract_total:
  "extract_lon_lat_from_wkt L v = Inr (projr (extract_lon_lat_from_wkt L v))"
  using extract_never_raises [of L v] by auto

lemma split_never_raises:
  "\<exists>parts. split_standard_description (v :: 'f pyval) = Inr parts \<and> length parts = 5"
proof (cases "\<exists>s. v = PStr s \<and> py_strip s \<noteq> []")
  case True
  then obtain s where s: "v = PStr s" "py_strip s \<noteq> []" by blast
  show ?thesis
    unfolding s(1) split_standard_description_segments [OF s(2) fix_mojibake_text_repair] by auto
next
  case False
  then show ?thesis by (cases v) (auto simp: split_standard_description_def)
qed

lemma split_total:
  "split_standard_description v = Inr (projr (split_standard_description v))"
  "length (projr (split_standard_description v)) = 5"
  using split_never_raises [of v] by auto

lemma map_of_setitem: "map_of (setitem d k v) k' = (if k' = k then Some v else map_of d k')"
  by (induction d) auto

lemma getitem_setitem:
  "getitem (setitem d k v) (Some k') = (if k' = k then Inr v else getitem d (Some k'))"
  by (simp add: getitem_def map_of_setitem)

lemma getitem_lift:
  "map_of d c = Some vs \<Longrightarrow> getitem (map (\<lambda>cv. (fst cv, map f (snd cv))) d) (Some c) = Inr (map f vs)"
  by (induction d) (auto simp: getitem_def)

lemma getitem_raw: "map_of d c = Some vs \<Longrightarrow> getitem d (Some c) = Inr vs"
  by (simp add: getitem_def)

lemma length_to_series [simp]: "length (to_series xs) = length xs"
  by (simp add: to_series_def)

lemma reindex_ok:
  "idx = range_index n \<or> distinct idx \<Longrightarrow> reindex idx n vs = Inr (aligned idx n vs)"
  by (auto simp: reindex_def)

lemma length_aligned: "length vs = n \<Longrightarrow> length (aligned idx n vs) = n"
  by (simp add: aligned_def)

lemma aligned_range: "aligned (range_index n) n vs = map Some vs"
  by (simp add: aligned_def)

lemma final_rows_length:
  assumes "length cz = n" "length zn = n" "length cc = n" "length nc = n" "length bo = n"
    "length rf = n" "length di = n" "length lats = n" "length lngs = n" "length ds = n"
  shows "length (final_rows cz zn cc nc bo rf di lats lngs ds) = n"
  using assms by (simp add: final_rows_def)

lemma final_rows_nth:
  assumes "length cz = n" "length zn = n" "length cc = n" "length nc = n" "length bo = n"
    "length rf = n" "length di = n" "length lats = n" "length lngs = n" "length ds = n"
    and "i < n"
  shows "final_rows cz zn cc nc bo rf di lats lngs ds ! i =
           \<lparr>CodigoZona = cz ! i, ZonaNombre = zn ! i, CodigoCliente = cc ! i,
            NombreCliente = nc ! i, Botica = bo ! i, Referencias = rf ! i, Direccion = di ! i,
            Lat = lats ! i, Lng = lngs ! i, DescripcionOriginal = ds ! i\<rparr>"
  using assms by (simp add: final_rows_def)

lemma final_rows_fields:
  assumes "length cz = n" "length zn = n" "length cc = n" "length nc = n" "length bo = n"
    "length rf = n" "length di = n" "length lats = n" "length lngs = n" "length ds = n"
  shows "map DescripcionOriginal (final_rows cz zn cc nc bo rf di lats lngs ds) = ds"
    and "map Direccion (final_rows cz zn cc nc bo rf di lats lngs ds) = di"
    and "map Lat (final_rows cz zn cc nc bo rf di lats lngs ds) = lats"
  using final_rows_length [OF assms] final_rows_nth [OF assms] assms
  by (auto intro!: nth_equalityI)

lemma bind_exn_Inr: "bind_exn (Inr v) f = f v"
  by (simp add: bind_exn_def)

lemma astype_str_raw_cell [simp]: "astype_str L (raw_cell v) = cell_text L v"
  by (simp add: astype_str_def raw_cell_def cell_text_def split: option.splits)

lemma astype_str_str_cell [simp]: "astype_str L (str_cell x) = cell_text L x"
  by (simp add: astype_str_def str_cell_def cell_text_def split: option.splits)

lemma cell_text_again [simp]:
  "cell_text L (map_option f (cell_text L v)) = map_option f (cell_text L v)"
  by (cases v; cases "astype_other L PNaN") (simp_all add: cell_text_def)

lemma apply_series_extract:
  "apply_series (extract_lon_lat_from_wkt L) (map (\<lambda>v. PStr (h v)) vs)
     = Inr (map (\<lambda>v. projr (extract_lon_lat_from_wkt L (PStr (h v)))) vs)"
proof -
  have "apply_series (extract_lon_lat_from_wkt L) (map (\<lambda>v. PStr (h v)) vs)
        = Inr (map (\<lambda>x. projr (extract_lon_lat_from_wkt L x)) (map (\<lambda>v. PStr (h v)) vs))"
    by (rule apply_series_total) (rule extract_total)
  then show ?thesis by (simp add: comp_def)
qed

lemma apply_series_split:
  "apply_series split_standard_description vs
     = Inr (map (\<lambda>v. projr (split_standard_description v)) vs)"
  by (rule apply_series_total) (rule split_total(1))

lemma parsed_df_split:
  "parsed_df (map (\<lambda>v. projr (split_standard_description v)) vs)
     = Inr (map (\<lambda>v. projr (split_standard_description v)) vs)"
  by (simp add: parsed_df_def list_all_iff split_total(2))

lemma map_of_in_cols: "c \<in> fst ` set cols \<Longrightarrow> \<exists>vs. map_of cols c = Some vs \<and> (c, vs) \<in> set cols"
  by (induction cols) auto


text \<open>The cleaning of a frame whose columns exist: no exception, and what the rows hold.\<close>

lemma clean_rows_ok:
  assumes len: "\<forall>cv\<in>set cols. length (snd cv) = n"
    and idx: "length idx = n" "idx = range_index n"
    and wc: "map_of cols wc = Some wv"
    and dc: "map_of cols dc = Some dv" "dc \<noteq> u ''Lat''" "dc \<noteq> u ''Lng''"
    and nc: "nc \<in> fst ` set cols"
    and dir: "dir = None \<or> (\<exists>d. dir = Some d \<and> d \<in> fst ` set cols)"
  shows "\<exists>rows. clean_rows (L :: 'f pylib) idx cols wc (Some nc) dc dir = Inr rows
           \<and> length rows = n
           \<and> map DescripcionOriginal rows
               = map missing_if_absent
                   (aligned idx n
                     (map (\<lambda>v. if nc = dc then map_option (\<lambda>t. repair (repair t)) (cell_text L v)
                                 else map_option repair (cell_text L v)) dv))
           \<and> (dir = None \<longrightarrow> map Direccion rows = replicate n (Some []))"
proof -
  define pairs where "pairs = map (\<lambda>v. projr (extract_lon_lat_from_wkt L (PStr (fillna_empty v)))) wv"
  define df1 :: "(ustr \<times> 'f pyval list) list"
    where "df1 = map (\<lambda>cv. (fst cv, map raw_cell (snd cv))) cols"
  define df2 where "df2 = setitem df1 (u ''Lat'') (to_series (map fst pairs))"
  define df3 where "df3 = setitem df2 (u ''Lng'') (to_series (map snd pairs))"
  have lenof: "length vs = n" if "map_of cols c = Some vs" for c vs
    using len map_of_SomeD [OF that] by fastforce
  have wvn: "length wv = n" and dvn: "length dv = n"
    using lenof wc dc(1) by auto
  have pn: "length pairs = n" by (simp add: pairs_def wvn)
  have g3: "\<exists>vs. getitem df3 (Some c) = Inr vs \<and> length vs = n
                 \<and> (c \<noteq> u ''Lat'' \<and> c \<noteq> u ''Lng'' \<longrightarrow> vs = map raw_cell (the (map_of cols c)))"
    if "c \<in> fst ` set cols" for c
  proof -
    from map_of_in_cols [OF that] obtain vs where vs: "map_of cols c = Some vs" by blast
    from getitem_lift [OF vs, of "raw_cell :: ustr option \<Rightarrow> 'f pyval"] lenof [OF vs] vs
    show ?thesis
      by (simp add: df3_def df2_def df1_def getitem_setitem pn)
  qed
  from g3 [OF nc] obtain nv where nv: "getitem df3 (Some nc) = Inr nv" "length nv = n"
    "nc \<noteq> u ''Lat'' \<and> nc \<noteq> u ''Lng'' \<longrightarrow> nv = map raw_cell (the (map_of cols nc))"
    by blast
  define nfix :: "'f pyval list" where "nfix = map (\<lambda>v. str_cell (map_option repair (astype_str L v))) nv"
  define df4 where "df4 = setitem df3 nc nfix"
  have dcin: "dc \<in> fst ` set cols"
    using map_of_SomeD [OF dc(1)] by force
  from g3 [OF dcin] dc have d3: "getitem df3 (Some dc) = Inr (map raw_cell dv)"
    by auto
  define dvals :: "'f pyval list" where "dvals = (if dc = nc then nfix else map raw_cell dv)"
  have d4: "getitem df4 (Some dc) = Inr dvals"
    by (simp add: df4_def getitem_setitem dvals_def d3)
  define dfix :: "'f pyval list" where "dfix = map (\<lambda>v. str_cell (map_option repair (astype_str L v))) dvals"
  define df5 where "df5 = setitem df4 dc dfix"
  have dn: "length dfix = n" "length nfix = n"
    by (simp_all add: dfix_def dvals_def nfix_def nv(2) dvn)
  have d5: "getitem df5 (Some dc) = Inr dfix"
    by (simp add: df5_def getitem_setitem)
  define parsed where "parsed = map (\<lambda>v. projr (split_standard_description v)) dfix"
  have sp: "apply_series split_standard_description dfix = Inr parsed"
    unfolding parsed_def by (rule apply_series_split)
  have pd: "parsed_df parsed = Inr parsed"
    unfolding parsed_def by (rule parsed_df_split)
  have pl: "length parsed = n" by (simp add: parsed_def dn)
  have parn: "length (parsed_col parsed k) = n" for k
    by (simp add: parsed_col_def pl)
  define bvals where "bvals = (if nc = dc then dfix else nfix)"
  have b5: "getitem df5 (Some nc) = Inr bvals"
    by (simp add: df5_def df4_def getitem_setitem bvals_def)
  have bn: "length bvals = n" by (simp add: bvals_def dn)
  have g5: "\<exists>vs. getitem df5 (Some c) = Inr vs \<and> length vs = n"
    if "c \<in> fst ` set cols \<or> c = u ''Lat'' \<or> c = u ''Lng''" for c
  proof -
    have "\<exists>vs. getitem df3 (Some c) = Inr vs \<and> length vs = n"
    proof (cases "c = u ''Lat'' \<or> c = u ''Lng''")
      case True
      then show ?thesis by (auto simp: df3_def df2_def getitem_setitem pn)
    next
      case False
      with that have "c \<in> fst ` set cols" by simp
      from g3 [OF this] show ?thesis by blast
    qed
    then show ?thesis
      by (auto simp: df5_def df4_def getitem_setitem dn)
  qed
  from g5 [of "u ''Lat''"] obtain lv where lv: "getitem df5 (Some (u ''Lat'')) = Inr lv" "length lv = n"
    by auto
  from g5 [of "u ''Lng''"] obtain gv where gv: "getitem df5 (Some (u ''Lng'')) = Inr gv" "length gv = n"
    by auto
  note ri = reindex_ok [OF disjI1 [OF idx(2)]]
  define bo where "bo = aligned idx n (map (\<lambda>v. py_strip (fillna_empty (astype_str L v))) bvals)"
  define la where "la = aligned idx n lv"
  define lg where "lg = aligned idx n gv"
  define de where "de = aligned idx n (map (astype_str L) dfix)"
  have aln: "length bo = n" "length la = n" "length lg = n" "length de = n"
    by (simp_all add: bo_def la_def lg_def de_def length_aligned bn lv(2) gv(2) dn)
  obtain av where av: "(case dir of None \<Rightarrow> Inr (replicate n (Some []))
               | Some direccion \<Rightarrow>
                   bind_exn (getitem df5 (Some direccion)) (\<lambda>vs.
                   Inr (aligned idx n (map (\<lambda>v. fillna_empty (astype_str L v)) vs)))) = Inr av"
    "length av = n" "dir = None \<longrightarrow> av = replicate n (Some [])"
  proof (cases dir)
    case None
    then show ?thesis using that by simp
  next
    case (Some d)
    with dir have "d \<in> fst ` set cols" by auto
    with g5 [of d] obtain vs where "getitem df5 (Some d) = Inr vs" "length vs = n" by auto
    with Some that show ?thesis by (simp add: bind_exn_def length_aligned)
  qed
  let ?rows = "final_rows (parsed_col parsed 0) (parsed_col parsed 1) (parsed_col parsed 2)
            (parsed_col parsed 3) bo (parsed_col parsed 4) av
            (map nan_if_absent la) (map nan_if_absent lg) (map missing_if_absent de)"
  have run: "clean_rows L idx cols wc (Some nc) dc dir = Inr ?rows"
    unfolding clean_rows_def
    by (simp only: getitem_raw [OF wc] bind_exn_Inr apply_series_extract Let_def
          pairs_def [symmetric] df1_def [symmetric] df2_def [symmetric] df3_def [symmetric]
          nv(1) apply_series_fix nfix_def [symmetric] option.case df4_def [symmetric] d4
          dfix_def [symmetric] df5_def [symmetric] d5 sp pd pl b5 ri bo_def [symmetric]
          lv(1) la_def [symmetric] gv(1) lg_def [symmetric] de_def [symmetric] av(1))
  have l8: "length (map nan_if_absent la) = n" and l9: "length (map nan_if_absent lg) = n"
    and l10: "length (map missing_if_absent de) = n"
    by (simp_all add: aln)
  note fl = final_rows_length [OF parn parn parn parn aln(1) parn av(2) l8 l9 l10]
  note ff = final_rows_fields [OF parn parn parn parn aln(1) parn av(2) l8 l9 l10]
  have descr: "map (astype_str L) dfix
      = map (\<lambda>v. if nc = dc then map_option (\<lambda>t. repair (repair t)) (cell_text L v)
                  else map_option repair (cell_text L v)) dv"
  proof (cases "nc = dc")
    case True
    with nv(3) dc have "nv = map raw_cell dv" by simp
    with True show ?thesis
      by (simp add: dfix_def dvals_def nfix_def comp_def option.map_comp)
  next
    case False
    then show ?thesis by (auto simp: dfix_def dvals_def comp_def)
  qed
  from run fl ff(1,2) descr av(3) show ?thesis
    by (auto simp: de_def)
qed


lemma lower_on_ascii_names:
  assumes "lower_on_ascii L"
  shows "str_lower L (u ''Lat'') = u ''lat''" "str_lower L (u ''Lng'') = u ''lng''"
    "str_lower L (u ''__descr_missing__'') = u ''__descr_missing__''"
  using assms by (simp_all add: lower_on_ascii_def u_def ascii_lower_def)

lemma descr_name_not_lat:
  assumes "lower_on_ascii L" and "descr_name (str_lower L c)"
  shows "c \<noteq> u ''Lat'' \<and> c \<noteq> u ''Lng''"
proof -
  have "\<not> descr_name (u ''lat'')" "\<not> descr_name (u ''lng'')"
    by (simp_all add: descr_name_def u_def)
  with assms(2) lower_on_ascii_names(1,2) [OF assms(1)] show ?thesis by auto
qed

lemma descr_missing_name: "lower_on_ascii L \<Longrightarrow> descr_name (str_lower L (u ''__descr_missing__''))"
  by (simp add: lower_on_ascii_names descr_name_def) (simp add: u_def)

lemma repair_empty: "repair [] = []"
  by (simp add: repair_def fix_mojibake_text_def)

lemma ascii_lib_lower_on_ascii: "lower_on_ascii ascii_lib"
  by (simp add: lower_on_ascii_def)

text \<open>
  The conversion of a well-formed frame with the default index and with a geometry and a
  label column: it ends without exception, writes one row per row of the frame, and the
  rows hold the repaired description and, without an address column, the empty text as
  address.
\<close>

lemma convert_ok:
  assumes wf: "wf_frame df" and ix: "index df = range_index (nrows df)"
    and inp: "input_file w = Some df"
    and wc: "find_wkt_col L df = Some wc"
    and nc: "find_nombre_col L (map fst (columns df)) wc = Some nc"
    and lo: "lower_on_ascii L"
  shows "\<exists>rows w'. convert_mymaps_csv L w = (None, w') \<and> output_file w' = Some rows
           \<and> length rows = nrows df
           \<and> (\<forall>dc dv. find_descr_col L (map fst (columns df)) = Some dc
                  \<and> map_of (columns df) dc = Some dv \<longrightarrow>
                map DescripcionOriginal rows
                  = map (\<lambda>v. if nc = dc
                              then map_option (\<lambda>t. repair (repair t)) (cell_text L v)
                              else map_option repair (cell_text L v)) dv)
           \<and> (find_direccion_col L (map fst (columns df)) = None \<longrightarrow>
                map Direccion rows = replicate (nrows df) (Some []))"
proof -
  let ?names = "map fst (columns df)"
  let ?n = "nrows df"
  from wf have len: "\<forall>cv\<in>set (columns df). length (snd cv) = ?n"
    by (simp add: wf_frame_def list_all_iff)
  have il: "length (index df) = ?n" by (simp add: nrows_def)
  from map_of_in_cols [OF find_wkt_col_in [OF wc]]
  obtain wv where wv: "map_of (columns df) wc = Some wv" by blast
  from find_nombre_col_in [OF nc] have ncin: "nc \<in> fst ` set (columns df)" by simp
  have dir: "find_direccion_col L ?names = None
             \<or> (\<exists>d. find_direccion_col L ?names = Some d \<and> d \<in> fst ` set (columns df))"
  proof (cases "find_direccion_col L ?names")
    case None
    then show ?thesis by simp
  next
    case (Some d)
    with first_key_Some [of "\<lambda>key. key \<in> set direccion_keys" L ?names d] show ?thesis
      by (simp add: find_direccion_col_def)
  qed
  show ?thesis
  proof (cases "find_descr_col L ?names")
    case (Some dc)
    from first_key_Some [OF Some [unfolded find_descr_col_def]]
    have dcin: "dc \<in> fst ` set (columns df)" and dn: "descr_name (str_lower L dc)" by simp_all
    from map_of_in_cols [OF dcin] obtain dv where dv: "map_of (columns df) dc = Some dv" by blast
    from descr_name_not_lat [OF lo dn] have nl: "dc \<noteq> u ''Lat''" "dc \<noteq> u ''Lng''" by simp_all
    from clean_rows_ok [OF len il ix wv dv nl ncin dir, of L] obtain rows where
      rows: "clean_rows L (index df) (columns df) wc (Some nc) dc (find_direccion_col L ?names)
               = Inr rows"
        "length rows = ?n"
        "map DescripcionOriginal rows
           = map missing_if_absent
               (aligned (index df) ?n
                 (map (\<lambda>v. if nc = dc then map_option (\<lambda>t. repair (repair t)) (cell_text L v)
                             else map_option repair (cell_text L v)) dv))"
        "find_direccion_col L ?names = None \<longrightarrow> map Direccion rows = replicate ?n (Some [])"
      by (elim exE conjE) (rule that)
    from rows(3) have r3: "map DescripcionOriginal rows
           = map (\<lambda>v. if nc = dc then map_option (\<lambda>t. repair (repair t)) (cell_text L v)
                       else map_option repair (cell_text L v)) dv"
      unfolding ix aligned_range by (simp add: missing_if_absent_def comp_def)
    have "convert_mymaps_csv L w =
            (None, print (Summary (length rows) (length (filter (\<lambda>r. isna (Lat r)) rows)))
                    (print Saved (w\<lparr>output_file := Some rows\<rparr>)))"
      by (simp add: convert_mymaps_csv_def inp wc nc Some rows(1) Let_def)
    with rows(2,4) r3 Some dv show ?thesis by (simp add: print_def)
  next
    case None
    let ?dm = "u ''__descr_missing__''"
    let ?cols = "setitem (columns df) ?dm (replicate ?n (Some []))"
    from None have "\<forall>c\<in>set ?names. \<not> descr_name (str_lower L c)"
      by (simp add: find_descr_col_def first_key_cols_lower_None)
    with descr_missing_name [OF lo] have fresh: "?dm \<notin> fst ` set (columns df)" by auto
    with ncin have ne: "nc \<noteq> ?dm" by blast
    have len': "\<forall>cv\<in>set ?cols. length (snd cv) = ?n"
      using len setitem_set [of "columns df" ?dm "replicate ?n (Some [])"] by auto
    have keys: "fst ` set ?cols = insert ?dm (fst ` set (columns df))"
      by (rule setitem_keys)
    from fresh find_wkt_col_in [OF wc] have "wc \<noteq> ?dm" by blast
    with wv have wv': "map_of ?cols wc = Some wv"
      by (simp add: map_of_setitem)
    have dv': "map_of ?cols ?dm = Some (replicate ?n (Some []))"
      by (simp add: map_of_setitem)
    have nl: "?dm \<noteq> u ''Lat''" "?dm \<noteq> u ''Lng''" by (simp_all add: u_def)
    have ncin': "nc \<in> fst ` set ?cols" using ncin keys by simp
    have dir': "find_direccion_col L ?names = None
             \<or> (\<exists>d. find_direccion_col L ?names = Some d \<and> d \<in> fst ` set ?cols)"
      using dir keys by auto
    from clean_rows_ok [OF len' il ix wv' dv' nl ncin' dir', of L] obtain rows where
      rows: "clean_rows L (index df) ?cols wc (Some nc) ?dm (find_direccion_col L ?names) = Inr rows"
        "length rows = ?n"
        "find_direccion_col L ?names = None \<longrightarrow> map Direccion rows = replicate ?n (Some [])"
      by (elim exE conjE) (rule that)
    have "convert_mymaps_csv L w =
            (None, print (Summary (length rows) (length (filter (\<lambda>r. isna (Lat r)) rows)))
                    (print Saved (print NoDescriptionColumn w\<lparr>output_file := Some rows\<rparr>)))"
      by (simp add: convert_mymaps_csv_def inp wc nc None rows(1) Let_def)
    with rows(2,3) None show ?thesis
      by (simp add: print_def)
  qed
qed


lemmas convert_eval =
  detect_eval point_eval split_eval run_script_def convert_mymaps_csv_def clean_rows_def
  getitem_def fillna_empty_def raw_cell_def str_cell_def astype_str_def to_series_def isna_def
  parsed_df_def parsed_col_def final_rows_def print_def wf_frame_def cell_text_def repair_def
  reindex_def aligned_def nan_if_absent_def missing_if_absent_def Let_def

text \<open>
  With the default index and a label column the conversion writes one row for every row of
  the frame.
\<close>

lemma convert_row_count:
  assumes "wf_frame df" and "index df = range_index (nrows df)"
    and "input_file w = Some df"
    and "find_wkt_col L df = Some wc"
    and "find_nombre_col L (map fst (columns df)) wc = Some nc"
    and "lower_on_ascii L"
  shows "\<exists>rows. fst (convert_mymaps_csv L w) = None
           \<and> output_file (snd (convert_mymaps_csv L w)) = Some rows
           \<and> length rows = nrows df"
proof -
  from convert_ok [OF assms] obtain rows w' where
    "convert_mymaps_csv L w = (None, w')" "output_file w' = Some rows"
    "length rows = nrows df"
    by (elim exE conjE) (rule that)
  then show ?thesis by simp
qed

text \<open>
  C2 fails on a frame that has the geometry column only: no label column is found,
  \<open>nombre_col\<close> is \<open>None\<close>, and \<open>df[nombre_col]\<close> raises \<open>KeyError\<close>; no output is written.
\<close>

theorem geometry_only_frame_raises:
  "find_wkt_col ascii_lib \<lparr>columns = [(u ''WKT'', [Some (u ''POINT (1 2)'')])],
                            index = [IntLabel 0]\<rparr> = Some (u ''WKT'')
   \<and> find_nombre_col ascii_lib [u ''WKT''] (u ''WKT'') = None
   \<and> run_script ascii_lib
         \<lparr>input_file = Some \<lparr>columns = [(u ''WKT'', [Some (u ''POINT (1 2)'')])],
                              index = [IntLabel 0]\<rparr>,
          output_file = None, backups = [], stdout = []\<rparr>
       = (Some KeyError,
          \<lparr>input_file = Some \<lparr>columns = [(u ''WKT'', [Some (u ''POINT (1 2)'')])],
                               index = [IntLabel 0]\<rparr>,
           output_file = None,
           backups = [\<lparr>columns = [(u ''WKT'', [Some (u ''POINT (1 2)'')])],
                       index = [IntLabel 0]\<rparr>],
           stdout = [BackupCreated, NoDescriptionColumn]\<rparr>)"
  by (simp add: convert_eval)

text \<open>
  C3, as the code has it. In a header whose lowercased names differ from each other, the
  geometry and the description column are the first column whose lowercased name contains
  a fragment of the keyword set, while the label and the address column are the first
  column whose lowercased name is equal to a keyword; where no lowercased name is equal
  to an address keyword, no address column is found, and the conversion of a well-formed
  frame with the default index and with a geometry and a label column writes the empty
  text as \<open>Direccion\<close> of every row.
\<close>

theorem column_detection_by_name:
  assumes "distinct (map (str_lower L) (map fst (columns df)))"
    and "map fst (columns df) = pre @ c # post"
  shows "(wkt_name (str_lower L c) \<and> (\<forall>x\<in>set pre. \<not> wkt_name (str_lower L x))
            \<longrightarrow> find_wkt_col L df = Some c)
       \<and> (descr_name (str_lower L c) \<and> (\<forall>x\<in>set pre. \<not> descr_name (str_lower L x))
            \<longrightarrow> find_descr_col L (map fst (columns df)) = Some c)
       \<and> (str_lower L c \<in> set nombre_keys \<and> (\<forall>x\<in>set pre. str_lower L x \<notin> set nombre_keys)
            \<longrightarrow> find_nombre_col L (map fst (columns df)) wkt_col = Some c)
       \<and> (str_lower L c \<in> set direccion_keys
            \<and> (\<forall>x\<in>set pre. str_lower L x \<notin> set direccion_keys)
            \<longrightarrow> find_direccion_col L (map fst (columns df)) = Some c)
       \<and> ((\<forall>x\<in>set (map fst (columns df)). str_lower L x \<notin> set direccion_keys)
            \<longrightarrow> find_direccion_col L (map fst (columns df)) = None
              \<and> (wf_frame df \<and> index df = range_index (nrows df)
                   \<and> input_file w = Some df \<and> lower_on_ascii L
                   \<and> find_wkt_col L df = Some wc
                   \<and> find_nombre_col L (map fst (columns df)) wc = Some nc
                 \<longrightarrow> (\<exists>rows. fst (convert_mymaps_csv L w) = None
                        \<and> output_file (snd (convert_mymaps_csv L w)) = Some rows
                        \<and> map Direccion rows = replicate (nrows df) (Some []))))"
proof -
  note fk = first_key_first_column [OF assms]
  have "wkt_name (str_lower L c) \<and> (\<forall>x\<in>set pre. \<not> wkt_name (str_lower L x))
            \<longrightarrow> find_wkt_col L df = Some c"
    using fk [of wkt_name] by (simp add: find_wkt_col_def)
  moreover have "descr_name (str_lower L c) \<and> (\<forall>x\<in>set pre. \<not> descr_name (str_lower L x))
            \<longrightarrow> find_descr_col L (map fst (columns df)) = Some c"
    using fk [of descr_name] by (simp add: find_descr_col_def)
  moreover have "str_lower L c \<in> set nombre_keys
            \<and> (\<forall>x\<in>set pre. str_lower L x \<notin> set nombre_keys)
            \<longrightarrow> find_nombre_col L (map fst (columns df)) wkt_col = Some c"
    using fk [of "\<lambda>key. key \<in> set nombre_keys"] by (simp add: find_nombre_col_def)
  moreover have "str_lower L c \<in> set direccion_keys
            \<and> (\<forall>x\<in>set pre. str_lower L x \<notin> set direccion_keys)
            \<longrightarrow> find_direccion_col L (map fst (columns df)) = Some c"
    using fk [of "\<lambda>key. key \<in> set direccion_keys"] by (simp add: find_direccion_col_def)
  moreover have "(\<forall>x\<in>set (map fst (columns df)). str_lower L x \<notin> set direccion_keys)
            \<longrightarrow> find_direccion_col L (map fst (columns df)) = None
              \<and> (wf_frame df \<and> index df = range_index (nrows df)
                   \<and> input_file w = Some df \<and> lower_on_ascii L
                   \<and> find_wkt_col L df = Some wc
                   \<and> find_nombre_col L (map fst (columns df)) wc = Some nc
                 \<longrightarrow> (\<exists>rows. fst (convert_mymaps_csv L w) = None
                        \<and> output_file (snd (convert_mymaps_csv L w)) = Some rows
                        \<and> map Direccion rows = replicate (nrows df) (Some [])))"
  proof (intro impI conjI)
    assume no: "\<forall>x\<in>set (map fst (columns df)). str_lower L x \<notin> set direccion_keys"
    then show none: "find_direccion_col L (map fst (columns df)) = None"
      by (simp add: find_direccion_col_def first_key_cols_lower_None)
    assume h: "wf_frame df \<and> index df = range_index (nrows df)
                   \<and> input_file w = Some df \<and> lower_on_ascii L
                   \<and> find_wkt_col L df = Some wc
                   \<and> find_nombre_col L (map fst (columns df)) wc = Some nc"
    then have h1: "wf_frame df" and h2: "index df = range_index (nrows df)"
      and h3: "input_file w = Some df" and h4: "lower_on_ascii L"
      and h5: "find_wkt_col L df = Some wc"
      and h6: "find_nombre_col L (map fst (columns df)) wc = Some nc"
      by simp_all
    from convert_ok [OF h1 h2 h3 h5 h6 h4] obtain rows w' where
      "convert_mymaps_csv L w = (None, w')" "output_file w' = Some rows"
      "find_direccion_col L (map fst (columns df)) = None \<longrightarrow>
         map Direccion rows = replicate (nrows df) (Some [])"
      by (elim exE conjE) (rule that)
    with none show "\<exists>rows. fst (convert_mymaps_csv L w) = None
                        \<and> output_file (snd (convert_mymaps_csv L w)) = Some rows
                        \<and> map Direccion rows = replicate (nrows df) (Some [])"
      by simp
  qed
  ultimately show ?thesis by blast
qed


theorem column_detection_by_name_witness:
  "distinct (map (str_lower ascii_lib) [u ''WKT'', u ''Nombre'', u ''Descripcion'', u ''Address''])
   \<and> find_wkt_col ascii_lib
         \<lparr>columns = [(u ''WKT'', []), (u ''Nombre'', []), (u ''Descripcion'', []),
                     (u ''Address'', [])], index = []\<rparr> = Some (u ''WKT'')
   \<and> find_nombre_col ascii_lib [u ''WKT'', u ''Nombre'', u ''Descripcion'', u ''Address'']
         (u ''WKT'') = Some (u ''Nombre'')
   \<and> find_descr_col ascii_lib [u ''WKT'', u ''Nombre'', u ''Descripcion'', u ''Address'']
       = Some (u ''Descripcion'')
   \<and> find_direccion_col ascii_lib [u ''WKT'', u ''Nombre'', u ''Descripcion'', u ''Address'']
       = Some (u ''Address'')
   \<and> str_lower ascii_lib (u ''WKT'') \<notin> set direccion_keys
   \<and> str_lower ascii_lib (u ''Nombre'') \<notin> set direccion_keys
   \<and> find_direccion_col ascii_lib [u ''WKT'', u ''Nombre''] = None
   \<and> wf_frame \<lparr>columns = [(u ''WKT'', [Some (u ''POINT (1 2)'')]),
                          (u ''Nombre'', [Some (u ''Botica A'')])], index = [IntLabel 0]\<rparr>
   \<and> lower_on_ascii ascii_lib
   \<and> (\<exists>rows. output_file (snd (convert_mymaps_csv ascii_lib
          \<lparr>input_file = Some \<lparr>columns = [(u ''WKT'', [Some (u ''POINT (1 2)'')]),
                                          (u ''Nombre'', [Some (u ''Botica A'')])],
                               index = [IntLabel 0]\<rparr>,
           output_file = None, backups = [], stdout = []\<rparr>)) = Some rows
        \<and> map Direccion rows = [Some []])"
proof -
  let ?df = "\<lparr>columns = [(u ''WKT'', []), (u ''Nombre'', []), (u ''Descripcion'', []),
                         (u ''Address'', [])], index = []\<rparr>"
  have d: "distinct (map (str_lower ascii_lib) (map fst (columns ?df)))"
    by (simp add: detect_eval)
  have 1: "map fst (columns ?df) = [] @ u ''WKT'' # [u ''Nombre'', u ''Descripcion'', u ''Address'']"
    and 2: "map fst (columns ?df) = [u ''WKT''] @ u ''Nombre'' # [u ''Descripcion'', u ''Address'']"
    and 3: "map fst (columns ?df) = [u ''WKT'', u ''Nombre''] @ u ''Descripcion'' # [u ''Address'']"
    and 4: "map fst (columns ?df) = [u ''WKT'', u ''Nombre'', u ''Descripcion''] @ u ''Address'' # []"
    by simp_all
  let ?df2 = "\<lparr>columns = [(u ''WKT'', [Some (u ''POINT (1 2)'')]),
                          (u ''Nombre'', [Some (u ''Botica A'')])], index = [IntLabel 0]\<rparr>"
  let ?w2 = "\<lparr>input_file = Some ?df2, output_file = None, backups = [], stdout = []\<rparr> :: ustr world"
  have d2: "distinct (map (str_lower ascii_lib) (map fst (columns ?df2)))"
    by (simp add: detect_eval)
  have 5: "map fst (columns ?df2) = [] @ u ''WKT'' # [u ''Nombre'']" by simp
  have wf2: "wf_frame ?df2" by (simp add: wf_frame_def nrows_def u_def)
  have ix2: "index ?df2 = range_index (nrows ?df2)" by (simp add: range_index_def nrows_def)
  have wk2: "find_wkt_col ascii_lib ?df2 = Some (u ''WKT'')" by (simp add: detect_eval)
  have nm2: "find_nombre_col ascii_lib (map fst (columns ?df2)) (u ''WKT'') = Some (u ''Nombre'')"
    by (simp add: detect_eval)
  from column_detection_by_name [OF d 1, of "u ''WKT''"]
  have a: "find_wkt_col ascii_lib ?df = Some (u ''WKT'')"
    by (simp add: eval_defs wkt_name_def)
  from column_detection_by_name [OF d 2, of "u ''WKT''"]
  have b: "find_nombre_col ascii_lib (map fst (columns ?df)) (u ''WKT'') = Some (u ''Nombre'')"
    by (simp add: eval_defs nombre_keys_def)
  from column_detection_by_name [OF d 3, of "u ''WKT''"]
  have c: "find_descr_col ascii_lib (map fst (columns ?df)) = Some (u ''Descripcion'')"
    by (simp add: eval_defs descr_name_def)
  from column_detection_by_name [OF d 4, of "u ''WKT''"]
  have e: "find_direccion_col ascii_lib (map fst (columns ?df)) = Some (u ''Address'')"
    by (simp add: eval_defs direccion_keys_def)
  have g: "str_lower ascii_lib (u ''WKT'') \<notin> set direccion_keys"
    "str_lower ascii_lib (u ''Nombre'') \<notin> set direccion_keys"
    by (simp_all add: eval_defs direccion_keys_def)
  from column_detection_by_name [OF d2 5, of "u ''WKT''" ?w2 "u ''WKT''" "u ''Nombre''"]
    g wf2 ix2 wk2 nm2 ascii_lib_lower_on_ascii
  have f: "find_direccion_col ascii_lib (map fst (columns ?df2)) = None
     \<and> (\<exists>rows. fst (convert_mymaps_csv ascii_lib ?w2) = None
                \<and> output_file (snd (convert_mymaps_csv ascii_lib ?w2)) = Some rows
                \<and> map Direccion rows = replicate (nrows ?df2) (Some []))"
    by simp
  then have f1: "find_direccion_col ascii_lib [u ''WKT'', u ''Nombre''] = None"
    and f2: "\<exists>rows. output_file (snd (convert_mymaps_csv ascii_lib ?w2)) = Some rows
                \<and> map Direccion rows = [Some []]"
    by (auto simp: nrows_def)
  from a b c e f1 f2 g d wf2 ascii_lib_lower_on_ascii show ?thesis by simp
qed

text \<open>
  C3 as it is worded fails: the lowercased name of the column \<open>Street Address\<close> contains the
  keyword \<open>address\<close> and is not equal to it, and the column is not found; \<open>Direccion\<close> is
  the empty text in the output.
\<close>

theorem address_by_substring_counterexample:
  "str_contains (u ''address'') (str_lower ascii_lib (u ''Street Address''))
   \<and> str_lower ascii_lib (u ''Street Address'') \<noteq> u ''address''
   \<and> find_direccion_col ascii_lib
         [u ''WKT'', u ''nombre'', u ''descripcion'', u ''Street Address''] = None
   \<and> map_option (map Direccion)
        (output_file (snd (run_script ascii_lib
           \<lparr>input_file = Some \<lparr>columns = [(u ''WKT'', [Some (u ''POINT (1 2)'')]),
                                          (u ''nombre'', [Some (u ''Botica A'')]),
                                          (u ''descripcion'', [Some (u ''Z1 - Norte'')]),
                                          (u ''Street Address'', [Some (u ''Av. Lima 123'')])],
                               index = [IntLabel 0]\<rparr>,
            output_file = None, backups = [], stdout = []\<rparr>)))
       = Some [Some []]"
  by (simp add: convert_eval)

text \<open>
  C10, as the code has it. For a well-formed frame with the default index and with a
  geometry, a label and a description column, the conversion ends without exception, and
  \<open>DescripcionOriginal\<close> holds in every row the text of the description cell after
  \<open>fix_mojibake_text\<close>: the column is overwritten with the repaired text before it is
  copied. Where the description column also serves as the label column, the repair has run
  over it twice. For a missing cell the field holds what \<open>.astype(str)\<close> makes of a missing
  value, repaired if it is a text.
\<close>

theorem descripcion_original_is_repaired:
  assumes "wf_frame df" and "index df = range_index (nrows df)"
    and "input_file w = Some df"
    and "find_wkt_col L df = Some wc"
    and "find_nombre_col L (map fst (columns df)) wc = Some nc"
    and "find_descr_col L (map fst (columns df)) = Some dc"
    and "map_of (columns df) dc = Some dv"
    and "lower_on_ascii L"
  shows "\<exists>rows. fst (convert_mymaps_csv L w) = None
           \<and> output_file (snd (convert_mymaps_csv L w)) = Some rows
           \<and> map DescripcionOriginal rows
               = map (\<lambda>v. if nc = dc then map_option (\<lambda>t. repair (repair t)) (cell_text L v)
                           else map_option repair (cell_text L v)) dv"
proof -
  from convert_ok [OF assms(1-5) assms(8)] obtain rows w' where
    r: "convert_mymaps_csv L w = (None, w')" "output_file w' = Some rows"
    "\<forall>dc dv. find_descr_col L (map fst (columns df)) = Some dc
                  \<and> map_of (columns df) dc = Some dv \<longrightarrow>
                map DescripcionOriginal rows
                  = map (\<lambda>v. if nc = dc
                              then map_option (\<lambda>t. repair (repair t)) (cell_text L v)
                              else map_option repair (cell_text L v)) dv"
    by (elim exE conjE) (rule that)
  from r(3) assms(6,7) have "map DescripcionOriginal rows
      = map (\<lambda>v. if nc = dc then map_option (\<lambda>t. repair (repair t)) (cell_text L v)
                  else map_option repair (cell_text L v)) dv"
    by blast
  with r(1,2) show ?thesis by simp
qed

theorem descripcion_original_is_repaired_witness:
  "wf_frame \<lparr>columns = [(u ''WKT'', [Some (u ''POINT (1 2)''), None]),
                        (u ''nombre'', [Some (u ''Botica A''), Some (u ''Botica B'')]),
                        (u ''descripcion'',
                           [Some [83, 97, 110, 32, 77, 97, 114, 116, 195, 173, 110], None])],
             index = [IntLabel 0, IntLabel 1]\<rparr>
   \<and> lower_on_ascii ascii_lib
   \<and> repair [83, 97, 110, 32, 77, 97, 114, 116, 195, 173, 110]
       = [83, 97, 110, 32, 77, 97, 114, 116, 237, 110]
   \<and> (\<exists>rows. output_file (snd (convert_mymaps_csv ascii_lib
          \<lparr>input_file = Some \<lparr>columns = [(u ''WKT'', [Some (u ''POINT (1 2)''), None]),
                        (u ''nombre'', [Some (u ''Botica A''), Some (u ''Botica B'')]),
                        (u ''descripcion'',
                           [Some [83, 97, 110, 32, 77, 97, 114, 116, 195, 173, 110], None])],
             index = [IntLabel 0, IntLabel 1]\<rparr>,
           output_file = None, backups = [], stdout = []\<rparr>)) = Some rows
        \<and> map DescripcionOriginal rows
            = [Some [83, 97, 110, 32, 77, 97, 114, 116, 237, 110], Some (u ''nan'')])"
proof -
  let ?dv = "[Some [83, 97, 110, 32, 77, 97, 114, 116, 195, 173, 110::nat], None]"
  let ?df = "\<lparr>columns = [(u ''WKT'', [Some (u ''POINT (1 2)''), None]),
                        (u ''nombre'', [Some (u ''Botica A''), Some (u ''Botica B'')]),
                        (u ''descripcion'', ?dv)], index = [IntLabel 0, IntLabel 1]\<rparr>"
  let ?w = "\<lparr>input_file = Some ?df, output_file = None, backups = [], stdout = []\<rparr> :: ustr world"
  have 1: "wf_frame ?df" by (simp add: wf_frame_def nrows_def u_def)
  have 2: "index ?df = range_index (nrows ?df)" by (simp add: range_index_def nrows_def)
  have 3: "input_file ?w = Some ?df" by simp
  have 4: "find_wkt_col ascii_lib ?df = Some (u ''WKT'')" by (simp add: detect_eval)
  have 5: "find_nombre_col ascii_lib (map fst (columns ?df)) (u ''WKT'') = Some (u ''nombre'')"
    by (simp add: detect_eval)
  have 6: "find_descr_col ascii_lib (map fst (columns ?df)) = Some (u ''descripcion'')"
    by (simp add: detect_eval)
  have 7: "map_of (columns ?df) (u ''descripcion'') = Some ?dv" by (simp add: u_def)
  have 8: "repair [83, 97, 110, 32, 77, 97, 114, 116, 195, 173, 110]
             = [83, 97, 110, 32, 77, 97, 114, 116, 237, 110]"
    by (simp add: repair_def eval_defs)
  have 9: "repair (u ''nan'') = u ''nan''" by (simp add: repair_def eval_defs)
  have 10: "u ''nombre'' \<noteq> u ''descripcion''" by (simp add: u_def)
  from descripcion_original_is_repaired [OF 1 2 3 4 5 6 7 ascii_lib_lower_on_ascii] 1 8 9 10
    ascii_lib_lower_on_ascii
  show ?thesis by (simp add: cell_text_def)
qed

text \<open>
  C10 as it is worded fails for a file whose rows have one field more than the header:
  pandas takes the first field as the label of the row, the columns copied from the loaded
  frame are reindexed to the default index of \<open>final\<close>, and \<open>DescripcionOriginal\<close> is
  missing although the description cell holds a text.
\<close>

theorem labelled_index_counterexample:
  "map_option (map DescripcionOriginal)
     (output_file (snd (convert_mymaps_csv ascii_lib
        \<lparr>input_file = Some \<lparr>columns = [(u ''WKT'', [Some (u ''POINT (1 2)'')]),
                                       (u ''nombre'', [Some (u ''Botica A'')]),
                                       (u ''descripcion'', [Some (u ''Z1 - Norte'')])],
                            index = [OtherLabel (u ''a'')]\<rparr>,
         output_file = None, backups = [], stdout = []\<rparr>)))
   = Some [None]"
  by (simp add: convert_eval)

end
